theory Spec2Isabelle
  imports Complex_Main "HOL-Library.Word" "HOL-Library.Log_Nat"
begin

section \<open>Strings\<close>

text \<open>
  A JavaScript string is a sequence of UTF-16 code units; \<open>length\<close>, \<open>padEnd\<close> and
  \<open>repeat\<close> count code units. The glyphs of \<^verbatim>\<open>index.ts\<close> all lie in the basic
  plane, one code unit each.
\<close>

type_synonym jsstr = "16 word list"

definition ascii :: "string \<Rightarrow> jsstr" where
  "ascii s = map (\<lambda>c. of_char c) s"

text \<open>\<^verbatim>\<open>String(n)\<close> of a non-negative integer below \<open>10^21\<close>: its decimal digits.\<close>

fun show_nat :: "nat \<Rightarrow> jsstr" where
  "show_nat n =
     (if n < 10 then [of_nat (48 + n)]
      else show_nat (n div 10) @ [of_nat (48 + n mod 10)])"

declare show_nat.simps [simp del]

definition show_int :: "int \<Rightarrow> jsstr" where
  "show_int i = (if i < 0 then 0x2D # show_nat (nat (- i)) else show_nat (nat i))"

text \<open>White space and line terminators of ECMAScript, as \<^verbatim>\<open>String.prototype.trim\<close> strips them.\<close>

definition is_white_space :: "16 word \<Rightarrow> bool" where
  "is_white_space c \<longleftrightarrow>
     c \<in> {0x09, 0x0A, 0x0B, 0x0C, 0x0D, 0x20, 0xA0, 0x1680, 0x2028, 0x2029, 0x202F,
          0x205F, 0x3000, 0xFEFF} \<or> (0x2000 \<le> c \<and> c \<le> 0x200A)"

definition trim :: "jsstr \<Rightarrow> jsstr" where
  "trim s = rev (dropWhile is_white_space (rev (dropWhile is_white_space s)))"

definition padEnd :: "nat \<Rightarrow> jsstr \<Rightarrow> jsstr" where
  "padEnd n s = s @ replicate (n - length s) 0x20"

text \<open>
  \<^verbatim>\<open>toLowerCase\<close> on the ASCII letters. The result is only ever compared with the keys
  \<^verbatim>\<open>arrow\<close>, \<^verbatim>\<open>hash\<close> and \<^verbatim>\<open>default\<close>, and no code unit outside ASCII
  lower-cases to a letter of these keys, so the comparison comes out as in JavaScript.
\<close>

definition toLowerCase :: "jsstr \<Rightarrow> jsstr" where
  "toLowerCase s = map (\<lambda>c. if 0x41 \<le> c \<and> c \<le> 0x5A then c + 0x20 else c) s"

fun join :: "jsstr \<Rightarrow> jsstr list \<Rightarrow> jsstr" where
  "join sep [] = []"
| "join sep [x] = x"
| "join sep (x # y # ys) = x @ sep @ join sep (y # ys)"

section \<open>Numbers\<close>

text \<open>
  A JavaScript \<^verbatim>\<open>number\<close> is an IEEE 754 double. A finite double is embedded as the
  rational it denotes, and every arithmetic operation rounds its exact result to the
  nearest double, ties to the even significand (\<open>fl\<close>). The exponent range is not
  bounded (no overflow to infinity, no subnormal numbers) and the sign of zero is not
  kept; whole seconds below \<open>2^53\<close>, their quotients and the percentages reach
  neither.
\<close>

definition expo :: "rat \<Rightarrow> int" where
  "expo x =
     (let (a, b) = quotient_of x;
          d = int (floorlog 2 (nat a)) - int (floorlog 2 (nat b))
      in if 2 powi d \<le> x then d else d - 1)"

definition round_half_even :: "rat \<Rightarrow> int" where
  "round_half_even r =
     (let m = \<lfloor>r\<rfloor>; f = r - of_int m
      in if f < 1 / 2 then m else if 1 / 2 < f then m + 1
         else if even m then m else m + 1)"

definition fl :: "rat \<Rightarrow> rat" where
  "fl x =
     (if x = 0 then 0
      else let a = \<bar>x\<bar>; g = 2 powi (expo a - 52)
           in sgn x * of_int (round_half_even (a / g)) * g)"

datatype number = Num rat | PosInf | NegInf | NaN

fun num_add :: "number \<Rightarrow> number \<Rightarrow> number" where
  "num_add (Num a) (Num b) = Num (fl (a + b))"
| "num_add NaN _ = NaN"
| "num_add _ NaN = NaN"
| "num_add PosInf NegInf = NaN"
| "num_add NegInf PosInf = NaN"
| "num_add PosInf _ = PosInf"
| "num_add NegInf _ = NegInf"
| "num_add (Num a) y = y"

fun num_sub :: "number \<Rightarrow> number \<Rightarrow> number" where
  "num_sub (Num a) (Num b) = Num (fl (a - b))"
| "num_sub NaN _ = NaN"
| "num_sub _ NaN = NaN"
| "num_sub PosInf PosInf = NaN"
| "num_sub NegInf NegInf = NaN"
| "num_sub PosInf _ = PosInf"
| "num_sub NegInf _ = NegInf"
| "num_sub (Num a) PosInf = NegInf"
| "num_sub (Num a) NegInf = PosInf"

definition signed_inf :: "bool \<Rightarrow> number" where
  "signed_inf positive = (if positive then PosInf else NegInf)"

fun num_mul :: "number \<Rightarrow> number \<Rightarrow> number" where
  "num_mul (Num a) (Num b) = Num (fl (a * b))"
| "num_mul NaN _ = NaN"
| "num_mul _ NaN = NaN"
| "num_mul PosInf (Num b) = (if b = 0 then NaN else signed_inf (0 < b))"
| "num_mul NegInf (Num b) = (if b = 0 then NaN else signed_inf (b < 0))"
| "num_mul (Num a) PosInf = (if a = 0 then NaN else signed_inf (0 < a))"
| "num_mul (Num a) NegInf = (if a = 0 then NaN else signed_inf (a < 0))"
| "num_mul PosInf PosInf = PosInf"
| "num_mul NegInf NegInf = PosInf"
| "num_mul PosInf NegInf = NegInf"
| "num_mul NegInf PosInf = NegInf"

fun num_div :: "number \<Rightarrow> number \<Rightarrow> number" where
  "num_div (Num a) (Num b) =
     (if b \<noteq> 0 then Num (fl (a / b)) else if a = 0 then NaN else signed_inf (0 < a))"
| "num_div NaN _ = NaN"
| "num_div _ NaN = NaN"
| "num_div PosInf (Num b) = signed_inf (0 \<le> b)"
| "num_div NegInf (Num b) = signed_inf (b < 0)"
| "num_div (Num a) _ = Num 0"
| "num_div _ _ = NaN"

text \<open>\<^verbatim>\<open>Math.round\<close>: the nearest integer, a tie going towards plus infinity.\<close>

fun Math_round :: "number \<Rightarrow> number" where
  "Math_round (Num q) = Num (of_int \<lfloor>q + 1 / 2\<rfloor>)"
| "Math_round x = x"

text \<open>
  \<^verbatim>\<open>x.toFixed(1)\<close>: the integer \<open>n\<close> nearest to \<open>10 * x\<close> (the larger one on a tie),
  printed with a point before its last digit. From \<open>10^21\<close> on JavaScript prints in
  exponent notation instead, which is not embedded; a percentage of \<open>formatStats\<close> is
  far below.
\<close>

definition toFixed1_abs :: "rat \<Rightarrow> jsstr" where
  "toFixed1_abs x =
     (let n = nat \<lfloor>x * 10 + 1 / 2\<rfloor>
      in show_nat (n div 10) @ ascii ''.'' @ show_nat (n mod 10))"

fun toFixed1 :: "number \<Rightarrow> jsstr" where
  "toFixed1 (Num q) = (if q < 0 then ascii ''-'' @ toFixed1_abs (- q) else toFixed1_abs q)"
| "toFixed1 PosInf = ascii ''Infinity''"
| "toFixed1 NegInf = ascii ''-Infinity''"
| "toFixed1 NaN = ascii ''NaN''"

section \<open>Errors\<close>

text \<open>
  A thrown value: an \<^verbatim>\<open>Error\<close> with its message (what \<^verbatim>\<open>axios\<close> rejects with, and
  what the program constructs), or a \<^verbatim>\<open>TypeError\<close> or \<^verbatim>\<open>RangeError\<close> raised by
  the engine, whose message text is the engine's own.
\<close>

datatype error = Error jsstr | TypeError | RangeError

text \<open>
  \<^verbatim>\<open>s.repeat(count)\<close>: the count is truncated to an integer (\<^verbatim>\<open>NaN\<close> counts as 0);
  a negative or infinite count is a \<^verbatim>\<open>RangeError\<close>.
\<close>

fun repeat :: "jsstr \<Rightarrow> number \<Rightarrow> error + jsstr" where
  "repeat s (Num q) = (if q \<le> - 1 then Inl RangeError else Inr (concat (replicate (nat \<lfloor>q\<rfloor>) s)))"
| "repeat s NaN = Inr []"
| "repeat s PosInf = Inl RangeError"
| "repeat s NegInf = Inl RangeError"

fun map_result :: "('a \<Rightarrow> error + 'b) \<Rightarrow> 'a list \<Rightarrow> error + 'b list" where
  "map_result f [] = Inr []"
| "map_result f (x # xs) =
     (case f x of
        Inl e \<Rightarrow> Inl e
      | Inr y \<Rightarrow> (case map_result f xs of Inl e \<Rightarrow> Inl e | Inr ys \<Rightarrow> Inr (y # ys)))"

section \<open>Types and configuration of \<^verbatim>\<open>index.ts\<close>\<close>

text \<open>
  \<^verbatim>\<open>total_seconds\<close> is a \<^verbatim>\<open>number\<close>; the data are non-negative whole seconds, embedded
  as \<open>nat\<close>. Such a value is a double when it is below \<open>2^53\<close>.
\<close>

record Language =
  name :: jsstr
  total_seconds :: nat

record WakaTimeStats =
  languages :: "Language list"

record GistFile =
  filename :: jsstr
  content :: jsstr

text \<open>\<^verbatim>\<open>GistResponse.files\<close>, its entries in the order of \<^verbatim>\<open>Object.keys\<close>.\<close>

type_synonym GistResponse = "(jsstr \<times> GistFile) list"

text \<open>\<^verbatim>\<open>process.env\<close>: a variable is unset (\<open>None\<close>) or a string.\<close>

record env =
  WAKATIME_TOKEN :: "jsstr option"
  GIST_ID :: "jsstr option"
  GH_TOKEN :: "jsstr option"
  TIME_RANGE :: "jsstr option"
  PROGRESS_STYLE :: "jsstr option"

text \<open>An unset variable inside a template literal prints as \<^verbatim>\<open>undefined\<close>.\<close>

definition template :: "jsstr option \<Rightarrow> jsstr" where
  "template v = (case v of None \<Rightarrow> ascii ''undefined'' | Some s \<Rightarrow> s)"

definition baseUrl :: jsstr where
  "baseUrl = ascii ''https://wakatime.com/api/v1/users/current''"

definition endpoints_stats :: "jsstr \<Rightarrow> jsstr" where
  "endpoints_stats rng = baseUrl @ ascii ''/stats/'' @ rng"

definition endpoints_summaries :: "jsstr \<Rightarrow> jsstr" where
  "endpoints_summaries rng = baseUrl @ ascii ''/summaries?range='' @ rng"

record style =
  filled :: jsstr
  empty :: jsstr
  blocks :: nat

definition PROGRESS_STYLES :: "(jsstr \<times> style) list" where
  "PROGRESS_STYLES =
     [(ascii ''arrow'', \<lparr>filled = [0x25B6], empty = [0x25B7], blocks = 16\<rparr>),
      (ascii ''hash'', \<lparr>filled = ascii ''#'', empty = ascii ''-'', blocks = 25\<rparr>),
      (ascii ''default'', \<lparr>filled = [0x25B0], empty = [0x25B1], blocks = 14\<rparr>)]"

definition GIST_TITLES_last_7_days :: jsstr where
  "GIST_TITLES_last_7_days = 0x2615 # ascii '' Last 7 Days Coding Stats''"

definition GIST_TITLES :: "(jsstr \<times> jsstr) list" where
  "GIST_TITLES =
     [(ascii ''yesterday'', 0x2615 # ascii '' Yesterday Coding Stats''),
      (ascii ''last_7_days'', GIST_TITLES_last_7_days),
      (ascii ''last_30_days'', 0x2615 # ascii '' Last 30 Days Coding Stats''),
      (ascii ''last_year'', 0x2615 # ascii '' Last Year Coding Stats'')]"

text \<open>
  The property names every object literal inherits from \<^verbatim>\<open>Object.prototype\<close>. Looking
  one of them up in \<^verbatim>\<open>GIST_TITLES\<close> gives a function or an object: a truthy value
  that is not a string.
\<close>

definition Object_prototype_keys :: "jsstr list" where
  "Object_prototype_keys =
     map ascii [''constructor'', ''__defineGetter__'', ''__defineSetter__'',
       ''hasOwnProperty'', ''__lookupGetter__'', ''__lookupSetter__'', ''isPrototypeOf'',
       ''propertyIsEnumerable'', ''toString'', ''valueOf'', ''__proto__'',
       ''toLocaleString'']"

datatype jsval = Str jsstr | Inherited jsstr

definition getWakaTimeEndpoint :: "jsstr \<Rightarrow> jsstr" where
  "getWakaTimeEndpoint rng =
     (if rng = ascii ''yesterday'' then endpoints_summaries (ascii ''yesterday'')
      else endpoints_stats rng)"

text \<open>
  \<^verbatim>\<open>GIST_TITLES[range] || GIST_TITLES.last_7_days\<close>: the four titles are non-empty
  strings, hence truthy, and so is an inherited member.
\<close>

definition getGistTitle :: "jsstr \<Rightarrow> jsval" where
  "getGistTitle rng =
     (case map_of GIST_TITLES rng of
        Some title \<Rightarrow> Str title
      | None \<Rightarrow>
          if rng \<in> set Object_prototype_keys then Inherited rng
          else Str GIST_TITLES_last_7_days)"

text \<open>\<^verbatim>\<open>(process.env.TIME_RANGE as TimeRange) || 'last_7_days'\<close>: the cast checks nothing.\<close>

definition timeRange :: "env \<Rightarrow> jsstr" where
  "timeRange env =
     (case TIME_RANGE env of
        None \<Rightarrow> ascii ''last_7_days''
      | Some r \<Rightarrow> if r = [] then ascii ''last_7_days'' else r)"

section \<open>Formatting\<close>

definition formatDuration :: "nat \<Rightarrow> jsstr" where
  "formatDuration seconds =
     (let hours = \<lfloor>fl (of_nat seconds / 3600)\<rfloor>;
          minutes = \<lfloor>fl (of_nat (seconds mod 3600) / 60)\<rfloor>;
          s = trim ((if hours \<noteq> 0 then show_int hours @ ascii '' hrs '' else []) @
                    (if minutes \<noteq> 0 then show_int minutes @ ascii '' mins'' else []))
      in if s = [] then ascii ''0 mins'' else s)"

text \<open>
  \<^verbatim>\<open>process.env.PROGRESS_STYLE?.toLowerCase() || 'default'\<close>: the default stands in for
  an unset variable and for the empty string only.
\<close>

definition style_key :: "env \<Rightarrow> jsstr" where
  "style_key env =
     (case PROGRESS_STYLE env of
        None \<Rightarrow> ascii ''default''
      | Some s \<Rightarrow> if toLowerCase s = [] then ascii ''default'' else toLowerCase s)"

text \<open>
  A key that \<^verbatim>\<open>PROGRESS_STYLES\<close> does not own gives \<^verbatim>\<open>undefined\<close>, or a member of
  \<^verbatim>\<open>Object.prototype\<close> without \<^verbatim>\<open>blocks\<close> and \<^verbatim>\<open>filled\<close>; reading the style then
  throws a \<^verbatim>\<open>TypeError\<close> in either case.
\<close>

definition createProgressBar :: "env \<Rightarrow> number \<Rightarrow> error + jsstr" where
  "createProgressBar env percentage =
     (case map_of PROGRESS_STYLES (style_key env) of
        None \<Rightarrow> Inl TypeError
      | Some style \<Rightarrow>
          (let filled_count =
                 Math_round (num_mul (num_div percentage (Num 100)) (Num (of_nat (blocks style))))
           in (case repeat (filled style) filled_count of
                 Inl e \<Rightarrow> Inl e
               | Inr bar \<Rightarrow>
                   (case repeat (empty style) (num_sub (Num (of_nat (blocks style))) filled_count) of
                      Inl e \<Rightarrow> Inl e
                    | Inr rest \<Rightarrow> Inr (bar @ rest)))))"

text \<open>\<^verbatim>\<open>stats.languages.reduce((sum, l) => sum + l.total_seconds, 0)\<close>\<close>

definition total_of :: "WakaTimeStats \<Rightarrow> number" where
  "total_of stats =
     foldl (\<lambda>sum l. num_add sum (Num (of_nat (total_seconds l)))) (Num 0) (languages stats)"

definition percentage_of :: "WakaTimeStats \<Rightarrow> Language \<Rightarrow> number" where
  "percentage_of stats lang =
     num_mul (num_div (Num (of_nat (total_seconds lang))) (total_of stats)) (Num 100)"

definition format_line :: "env \<Rightarrow> WakaTimeStats \<Rightarrow> Language \<Rightarrow> error + jsstr" where
  "format_line env stats lang =
     (let percentage = percentage_of stats lang
      in (case createProgressBar env percentage of
            Inl e \<Rightarrow> Inl e
          | Inr bar \<Rightarrow>
              Inr (padEnd 10 (name lang) @ ascii '' '' @
                   padEnd 14 (formatDuration (total_seconds lang)) @ ascii '' '' @
                   bar @ ascii ''  '' @ toFixed1 percentage @ ascii ''%'')))"

definition formatStats :: "env \<Rightarrow> WakaTimeStats \<Rightarrow> error + jsstr" where
  "formatStats env stats =
     (case map_result (format_line env stats) (take 5 (languages stats)) of
        Inl e \<Rightarrow> Inl e
      | Inr ls \<Rightarrow> Inr (join [0x0A] ls))"

section \<open>Requests, replies and the log\<close>

type_synonym headers = "(jsstr \<times> jsstr) list"

text \<open>One entry of the \<^verbatim>\<open>files\<close> object of a \<^verbatim>\<open>PATCH\<close>: the fields it sets.\<close>

record file_patch =
  set_filename :: "jsval option"
  set_content :: "jsstr option"

text \<open>
  What a run does to the outside: the requests it sends and the lines it logs.
  \<open>LogError prefix e\<close> is \<^verbatim>\<open>log.error\<close> of the prefix followed by the message of
  \<open>e\<close>; \<open>ConsoleLog e\<close> is the \<^verbatim>\<open>console.log({ error })\<close> of the stats fetcher.
\<close>

datatype event =
    HttpGet jsstr headers
  | HttpPatch jsstr "(jsval \<times> file_patch) list" headers
  | LogInfo jsstr
  | LogError jsstr error
  | ConsoleLog error

text \<open>
  The remote services answer each call of the run: \<open>Inl m\<close> when \<^verbatim>\<open>axios\<close> rejects
  with an error of message \<open>m\<close> (transport failure, error status, unreadable body),
  \<open>Inr\<close> with the \<^verbatim>\<open>data\<close> of the response otherwise. The body of a reply has the
  shape that the interfaces of \<^verbatim>\<open>index.ts\<close> declare for the endpoint asked:
  \<^verbatim>\<open>WakaTimeResponse\<close> for a stats endpoint, \<^verbatim>\<open>SummaryResponse\<close> for the summaries.
  A run reaches each of the four calls at most once, so one reply for each call is as
  general as a reply for each request.
\<close>

record world =
  stats_reply :: "jsstr + WakaTimeStats"
  summaries_reply :: "jsstr + WakaTimeStats list"
  gist_reply :: "jsstr + GistResponse"
  rename_reply :: "jsstr + unit"
  update_reply :: "jsstr + unit"

definition gist_url :: "env \<Rightarrow> jsstr" where
  "gist_url env = ascii ''https://api.github.com/gists/'' @ template (GIST_ID env)"

definition github_headers :: "env \<Rightarrow> headers" where
  "github_headers env =
     [(ascii ''Accept'', ascii ''application/vnd.github+json''),
      (ascii ''Authorization'', ascii ''Bearer '' @ template (GH_TOKEN env))]"

definition wakatime_headers :: "env \<Rightarrow> headers" where
  "wakatime_headers env =
     [(ascii ''Authorization'', ascii ''Basic '' @ template (WAKATIME_TOKEN env))]"

section \<open>The pipeline\<close>

text \<open>The \<^verbatim>\<open>catch\<close> of \<open>fetchWakaTimeStats\<close>: two log lines, then \<^verbatim>\<open>null\<close>.\<close>

definition fetch_failed :: "jsstr \<Rightarrow> event list" where
  "fetch_failed m =
     [ConsoleLog (Error m), LogError (ascii ''Failed to fetch WakaTime stats: '') (Error m)]"

definition fetchWakaTimeStats :: "env \<Rightarrow> world \<Rightarrow> WakaTimeStats option \<times> event list" where
  "fetchWakaTimeStats env w =
     (let endpoint = getWakaTimeEndpoint (timeRange env);
          request = HttpGet endpoint (wakatime_headers env)
      in if timeRange env = ascii ''yesterday'' then
           (case summaries_reply w of
              Inl m \<Rightarrow> (None, request # fetch_failed m)
            | Inr summaryData \<Rightarrow>
                (Some \<lparr>languages = (case summaryData of [] \<Rightarrow> [] | s # _ \<Rightarrow> languages s)\<rparr>,
                 [request]))
         else
           (case stats_reply w of
              Inl m \<Rightarrow> (None, request # fetch_failed m)
            | Inr d \<Rightarrow> (Some d, [request])))"

definition fetchGistFilename :: "env \<Rightarrow> world \<Rightarrow> (error + jsval) \<times> event list" where
  "fetchGistFilename env w =
     (let request = HttpGet (gist_url env) (github_headers env);
          failed = (\<lambda>m. LogError (ascii ''Failed to fetch/update gist filename: '') (Error m))
      in case gist_reply w of
           Inl m \<Rightarrow> (Inl (Error m), [request, failed m])
         | Inr files \<Rightarrow>
             let newFilename = getGistTitle (timeRange env)
             in (case map fst files of
                   [] \<Rightarrow> (Inl (Error (ascii ''No files found in the gist'')),
                          [request, failed (ascii ''No files found in the gist'')])
                 | oldFilename # _ \<Rightarrow>
                     if oldFilename = [] then
                       (Inl (Error (ascii ''No files found in the gist'')),
                        [request, failed (ascii ''No files found in the gist'')])
                     else if Str oldFilename \<noteq> newFilename then
                       (let rename =
                              HttpPatch (gist_url env)
                                [(Str oldFilename,
                                  \<lparr>set_filename = Some newFilename,
                                   set_content = map_option content (map_of files oldFilename)\<rparr>)]
                                (github_headers env)
                        in case rename_reply w of
                             Inl m \<Rightarrow> (Inl (Error m), [request, rename, failed m])
                           | Inr _ \<Rightarrow> (Inr newFilename, [request, rename]))
                     else (Inr newFilename, [request])))"

definition updateGist ::
  "env \<Rightarrow> world \<Rightarrow> WakaTimeStats option \<Rightarrow> jsval \<Rightarrow> (error + unit) \<times> event list" where
  "updateGist env w stats file =
     (case (case stats of
              Some s \<Rightarrow> formatStats env s
            | None \<Rightarrow> Inr (ascii ''No WakaTime stats available'')) of
        Inl e \<Rightarrow> (Inl e, [])
      | Inr text \<Rightarrow>
          (Inr (),
           [HttpPatch (gist_url env)
              [(file, \<lparr>set_filename = None, set_content = Some text\<rparr>)] (github_headers env),
            (case update_reply w of
               Inl m \<Rightarrow> LogError (ascii ''Failed to update gist: '') (Error m)
             | Inr _ \<Rightarrow> LogInfo (ascii ''Gist updated successfully''))]))"

text \<open>
  \<^verbatim>\<open>Promise.all\<close> starts the stats fetcher and the locator together. Their events are
  listed one branch after the other; the order between events of the two branches is
  not fixed by the program and no statement below depends on it.
\<close>

definition main :: "env \<Rightarrow> world \<Rightarrow> event list" where
  "main env w =
     (let (stats, fetched) = fetchWakaTimeStats env w;
          (located, locating) = fetchGistFilename env w
      in LogInfo (ascii ''Fetching WakaTime stats and gist filename...'') # fetched @ locating @
         (case located of
            Inl e \<Rightarrow> [LogError (ascii ''Operation failed: '') e]
          | Inr file \<Rightarrow>
              LogInfo (ascii ''Updating gist with latest stats...'') #
              (case updateGist env w stats file of
                 (Inl e, written) \<Rightarrow> written @ [LogError (ascii ''Operation failed: '') e]
               | (Inr _, written) \<Rightarrow> written)))"

section \<open>Reading a run\<close>

definition is_patch :: "event \<Rightarrow> bool" where
  "is_patch ev = (case ev of HttpPatch _ _ _ \<Rightarrow> True | _ \<Rightarrow> False)"

text \<open>The stats request of this run is answered with an error of message \<open>m\<close>.\<close>

definition stats_fetch_fails :: "env \<Rightarrow> world \<Rightarrow> jsstr \<Rightarrow> bool" where
  "stats_fetch_fails env w m =
     (if timeRange env = ascii ''yesterday'' then summaries_reply w = Inl m
      else stats_reply w = Inl m)"

text \<open>
  \<^verbatim>\<open>Math.round((p / 100) * blocks)\<close> for a finite \<open>p\<close>, in the arithmetic of doubles:
  the number of filled glyphs that \<open>createProgressBar\<close> computes.
\<close>

definition rounded_blocks :: "rat \<Rightarrow> nat \<Rightarrow> int" where
  "rounded_blocks p b = \<lfloor>fl (fl (p / 100) * of_nat b) + 1 / 2\<rfloor>"

definition bar_of :: "style \<Rightarrow> nat \<Rightarrow> jsstr" where
  "bar_of st k = concat (replicate k (filled st)) @ concat (replicate (blocks st - k) (empty st))"

text \<open>The seconds of all the languages of a snapshot, not only of the five displayed.\<close>

definition seconds_total :: "WakaTimeStats \<Rightarrow> nat" where
  "seconds_total stats = sum_list (map total_seconds (languages stats))"

text \<open>
  A name column as claim C6 words it, padded or truncated to exactly ten code units;
  \<open>format_line\<close> uses \<open>padEnd 10\<close> instead.
\<close>

definition name_column_claimed :: "jsstr \<Rightarrow> jsstr" where
  "name_column_claimed n = take 10 (padEnd 10 n)"

section \<open>Sample runs\<close>

definition env_unset :: env where
  "env_unset =
     \<lparr>WAKATIME_TOKEN = None, GIST_ID = None, GH_TOKEN = None, TIME_RANGE = None,
      PROGRESS_STYLE = None\<rparr>"

definition gist_one_file :: GistResponse where
  "gist_one_file =
     [(ascii ''stats.txt'', \<lparr>filename = ascii ''stats.txt'', content = ascii ''old text''\<rparr>)]"

definition world_no_files :: world where
  "world_no_files =
     \<lparr>stats_reply = Inr \<lparr>languages = []\<rparr>, summaries_reply = Inr [], gist_reply = Inr [],
      rename_reply = Inr (), update_reply = Inr ()\<rparr>"

definition sample_stats :: WakaTimeStats where
  "sample_stats =
     \<lparr>languages =
        [\<lparr>name = ascii ''A'', total_seconds = 3600\<rparr>, \<lparr>name = ascii ''B'', total_seconds = 3600\<rparr>]\<rparr>"

definition world_ok :: world where
  "world_ok =
     \<lparr>stats_reply = Inr sample_stats, summaries_reply = Inr [],
      gist_reply = Inr gist_one_file, rename_reply = Inr (), update_reply = Inr ()\<rparr>"

definition world_fetch_fails :: world where
  "world_fetch_fails = world_ok\<lparr>stats_reply := Inl (ascii ''Network Error'')\<rparr>"

definition env_yesterday :: env where
  "env_yesterday = env_unset\<lparr>TIME_RANGE := Some (ascii ''yesterday'')\<rparr>"

definition world_empty_snapshot :: world where
  "world_empty_snapshot = world_ok\<lparr>stats_reply := Inr \<lparr>languages = []\<rparr>\<rparr>"

definition env_fancy :: env where
  "env_fancy = env_unset\<lparr>PROGRESS_STYLE := Some (ascii ''fancy'')\<rparr>"

definition env_last_week :: env where
  "env_last_week = env_unset\<lparr>TIME_RANGE := Some (ascii ''last_week'')\<rparr>"

definition env_hash :: env where
  "env_hash = env_unset\<lparr>PROGRESS_STYLE := Some (ascii ''HASH'')\<rparr>"

definition eight_equal :: WakaTimeStats where
  "eight_equal =
     \<lparr>languages = map (\<lambda>n. \<lparr>name = n, total_seconds = 3600\<rparr>)
        [ascii ''A'', ascii ''B'', ascii ''C'', ascii ''D'', ascii ''E'', ascii ''F'',
         ascii ''G'', ascii ''H'']\<rparr>"

definition long_name_stats :: WakaTimeStats where
  "long_name_stats = \<lparr>languages = [\<lparr>name = ascii ''Jupyter Notebook'', total_seconds = 3600\<rparr>]\<rparr>"

definition gist_yesterday :: GistResponse where
  "gist_yesterday =
     [(0x2615 # ascii '' Yesterday Coding Stats'',
       \<lparr>filename = 0x2615 # ascii '' Yesterday Coding Stats'', content = ascii ''old text''\<rparr>)]"

definition world_yesterday :: world where
  "world_yesterday = world_ok\<lparr>gist_reply := Inr gist_yesterday\<rparr>"

section \<open>The locator\<close>

lemma no_patch_fetchWakaTimeStats: "filter is_patch (snd (fetchWakaTimeStats env w)) = []"
  by (simp add: fetchWakaTimeStats_def fetch_failed_def is_patch_def Let_def split: sum.splits)

text \<open>
  Claim C4. When the gist has no file, the locator fails with the error
  \<^verbatim>\<open>No files found in the gist\<close>; the run logs it in the locator and again in the
  handler of \<open>main\<close>, and sends no \<^verbatim>\<open>PATCH\<close> at all.
\<close>

theorem no_files_is_hard_stop:
  assumes "gist_reply w = Inr []"
  shows "fst (fetchGistFilename env w) = Inl (Error (ascii ''No files found in the gist''))
       \<and> main env w =
           LogInfo (ascii ''Fetching WakaTime stats and gist filename...'') #
           snd (fetchWakaTimeStats env w) @
           [HttpGet (gist_url env) (github_headers env),
            LogError (ascii ''Failed to fetch/update gist filename: '')
              (Error (ascii ''No files found in the gist'')),
            LogError (ascii ''Operation failed: '') (Error (ascii ''No files found in the gist''))]
       \<and> filter is_patch (main env w) = []"
proof -
  have loc: "fetchGistFilename env w =
      (Inl (Error (ascii ''No files found in the gist'')),
       [HttpGet (gist_url env) (github_headers env),
        LogError (ascii ''Failed to fetch/update gist filename: '')
          (Error (ascii ''No files found in the gist''))])"
    using assms by (simp add: fetchGistFilename_def Let_def)
  have run: "main env w =
           LogInfo (ascii ''Fetching WakaTime stats and gist filename...'') #
           snd (fetchWakaTimeStats env w) @
           [HttpGet (gist_url env) (github_headers env),
            LogError (ascii ''Failed to fetch/update gist filename: '')
              (Error (ascii ''No files found in the gist'')),
            LogError (ascii ''Operation failed: '') (Error (ascii ''No files found in the gist''))]"
    by (simp add: main_def loc split: prod.splits)
  have "filter is_patch (main env w) = []"
    unfolding run using no_patch_fetchWakaTimeStats [of env w]
    by (simp add: is_patch_def)
  with loc run show ?thesis by simp
qed

theorem no_files_is_hard_stop_witness:
  "gist_reply world_no_files = Inr []
   \<and> fst (fetchGistFilename env_unset world_no_files) =
       Inl (Error (ascii ''No files found in the gist''))
   \<and> filter is_patch (main env_unset world_no_files) = []"
proof -
  have empty_gist: "gist_reply world_no_files = Inr []"
    by (simp add: world_no_files_def)
  from no_files_is_hard_stop [OF empty_gist, of env_unset] empty_gist
  show ?thesis by blast
qed

lemma timeRange_unset: "timeRange env_unset = ascii ''last_7_days''"
  by (simp add: timeRange_def env_unset_def)

lemma title_last_7_days:
  "getGistTitle (ascii ''last_7_days'') = Str (0x2615 # ascii '' Last 7 Days Coding Stats'')"
  by (simp add: getGistTitle_def GIST_TITLES_def GIST_TITLES_last_7_days_def ascii_def)

lemma locate_sample:
  "fetchGistFilename env_unset world_ok =
     (Inr (Str (0x2615 # ascii '' Last 7 Days Coding Stats'')),
      [HttpGet (gist_url env_unset) (github_headers env_unset),
       HttpPatch (gist_url env_unset)
         [(Str (ascii ''stats.txt''),
           \<lparr>set_filename = Some (Str (0x2615 # ascii '' Last 7 Days Coding Stats'')),
            set_content = Some (ascii ''old text'')\<rparr>)]
         (github_headers env_unset)])"
  by (simp add: fetchGistFilename_def timeRange_unset title_last_7_days world_ok_def
      gist_one_file_def Let_def)
    (simp add: ascii_def)

lemma titles_of_ranges:
  "map_of GIST_TITLES (ascii ''yesterday'') = Some (0x2615 # ascii '' Yesterday Coding Stats'')"
  "map_of GIST_TITLES (ascii ''last_7_days'') = Some (0x2615 # ascii '' Last 7 Days Coding Stats'')"
  "map_of GIST_TITLES (ascii ''last_30_days'') = Some (0x2615 # ascii '' Last 30 Days Coding Stats'')"
  "map_of GIST_TITLES (ascii ''last_year'') = Some (0x2615 # ascii '' Last Year Coding Stats'')"
  by (simp_all add: GIST_TITLES_def GIST_TITLES_last_7_days_def ascii_def)

text \<open>
  Claim C5. When the gist has a file and its first filename is a non-empty string, and
  \<^verbatim>\<open>GIST_TITLES\<close> has a title for the time range of the run, the locator sends a
  rename \<^verbatim>\<open>PATCH\<close> exactly when that filename differs from this title; the rename
  names the title as new filename and sends the content the file already has; and the
  locator returns the title when no rename is needed or the rename is answered without
  error. The titles are those of the four ranges.
\<close>

theorem rename_iff_title_differs:
  assumes "gist_reply w = Inr ((old, file) # others)" and "old \<noteq> []"
      and "map_of GIST_TITLES (timeRange env) = Some title"
  shows "filter is_patch (snd (fetchGistFilename env w)) =
           (if old = title then []
            else [HttpPatch (gist_url env)
                    [(Str old,
                      \<lparr>set_filename = Some (Str title), set_content = Some (content file)\<rparr>)]
                    (github_headers env)])
       \<and> (old = title \<or> rename_reply w = Inr () \<longrightarrow>
            fst (fetchGistFilename env w) = Inr (Str title))
       \<and> map (map_of GIST_TITLES)
             [ascii ''yesterday'', ascii ''last_7_days'', ascii ''last_30_days'', ascii ''last_year''] =
           [Some (0x2615 # ascii '' Yesterday Coding Stats''),
            Some (0x2615 # ascii '' Last 7 Days Coding Stats''),
            Some (0x2615 # ascii '' Last 30 Days Coding Stats''),
            Some (0x2615 # ascii '' Last Year Coding Stats'')]"
proof -
  have title: "getGistTitle (timeRange env) = Str title"
    using assms(3) by (simp add: getGistTitle_def)
  have patches: "filter is_patch (snd (fetchGistFilename env w)) =
           (if old = title then []
            else [HttpPatch (gist_url env)
                    [(Str old,
                      \<lparr>set_filename = Some (Str title), set_content = Some (content file)\<rparr>)]
                    (github_headers env)])"
    using assms(1,2)
    by (simp add: fetchGistFilename_def title Let_def is_patch_def split: sum.splits)
  have returned: "old = title \<or> rename_reply w = Inr () \<longrightarrow>
      fst (fetchGistFilename env w) = Inr (Str title)"
    using assms(1,2)
    by (auto simp: fetchGistFilename_def title Let_def split: sum.splits)
  from patches returned titles_of_ranges show ?thesis by simp
qed

theorem rename_iff_title_differs_witness:
  "gist_reply world_yesterday =
     Inr ((0x2615 # ascii '' Yesterday Coding Stats'',
           \<lparr>filename = 0x2615 # ascii '' Yesterday Coding Stats'', content = ascii ''old text''\<rparr>) # [])
   \<and> map_of GIST_TITLES (timeRange env_yesterday) = Some (0x2615 # ascii '' Yesterday Coding Stats'')
   \<and> filter is_patch (snd (fetchGistFilename env_yesterday world_yesterday)) = []
   \<and> fst (fetchGistFilename env_yesterday world_yesterday) =
       Inr (Str (0x2615 # ascii '' Yesterday Coding Stats''))
   \<and> gist_reply world_ok =
       Inr ((ascii ''stats.txt'', \<lparr>filename = ascii ''stats.txt'', content = ascii ''old text''\<rparr>) # [])
   \<and> map_of GIST_TITLES (timeRange env_unset) = Some (0x2615 # ascii '' Last 7 Days Coding Stats'')
   \<and> rename_reply world_ok = Inr ()
   \<and> filter is_patch (snd (fetchGistFilename env_unset world_ok)) =
       [HttpPatch (gist_url env_unset)
          [(Str (ascii ''stats.txt''),
            \<lparr>set_filename = Some (Str (0x2615 # ascii '' Last 7 Days Coding Stats'')),
             set_content = Some (ascii ''old text'')\<rparr>)]
          (github_headers env_unset)]
   \<and> fst (fetchGistFilename env_unset world_ok) =
       Inr (Str (0x2615 # ascii '' Last 7 Days Coding Stats''))"
proof -
  have gist_y: "gist_reply world_yesterday =
     Inr ((0x2615 # ascii '' Yesterday Coding Stats'',
           \<lparr>filename = 0x2615 # ascii '' Yesterday Coding Stats'', content = ascii ''old text''\<rparr>) # [])"
    by (simp add: world_yesterday_def gist_yesterday_def)
  have named_y: "0x2615 # ascii '' Yesterday Coding Stats'' \<noteq> []"
    by simp
  have range_y: "timeRange env_yesterday = ascii ''yesterday''"
    by (simp add: timeRange_def env_yesterday_def ascii_def)
  have title_y: "map_of GIST_TITLES (timeRange env_yesterday) =
      Some (0x2615 # ascii '' Yesterday Coding Stats'')"
    unfolding range_y by (rule titles_of_ranges(1))
  note spec_y = rename_iff_title_differs [OF gist_y named_y title_y]
  have patches_y: "filter is_patch (snd (fetchGistFilename env_yesterday world_yesterday)) = []"
    using spec_y [THEN conjunct1] by simp
  have returned_y: "fst (fetchGistFilename env_yesterday world_yesterday) =
       Inr (Str (0x2615 # ascii '' Yesterday Coding Stats''))"
    using spec_y [THEN conjunct2, THEN conjunct1] by blast
  have gist: "gist_reply world_ok =
      Inr ((ascii ''stats.txt'', \<lparr>filename = ascii ''stats.txt'', content = ascii ''old text''\<rparr>) # [])"
    by (simp add: world_ok_def gist_one_file_def)
  have named: "ascii ''stats.txt'' \<noteq> []"
    by (simp add: ascii_def)
  have title: "map_of GIST_TITLES (timeRange env_unset) =
      Some (0x2615 # ascii '' Last 7 Days Coding Stats'')"
    unfolding timeRange_unset by (rule titles_of_ranges(2))
  have answered: "rename_reply world_ok = Inr ()"
    by (simp add: world_ok_def)
  have differs: "ascii ''stats.txt'' \<noteq> 0x2615 # ascii '' Last 7 Days Coding Stats''"
    by (simp add: ascii_def)
  note spec = rename_iff_title_differs [OF gist named title]
  have patches: "filter is_patch (snd (fetchGistFilename env_unset world_ok)) =
       [HttpPatch (gist_url env_unset)
          [(Str (ascii ''stats.txt''),
            \<lparr>set_filename = Some (Str (0x2615 # ascii '' Last 7 Days Coding Stats'')),
             set_content = Some (ascii ''old text'')\<rparr>)]
          (github_headers env_unset)]"
    using spec [THEN conjunct1] differs by simp
  have returned: "fst (fetchGistFilename env_unset world_ok) =
       Inr (Str (0x2615 # ascii '' Last 7 Days Coding Stats''))"
    using spec [THEN conjunct2, THEN conjunct1] answered by blast
  from gist_y title_y patches_y returned_y gist title answered patches returned
  show ?thesis by blast
qed

text \<open>A rename that fails is thrown on by the locator, which then returns no filename.\<close>

lemma rename_failure_is_rethrown:
  assumes "gist_reply w = Inr ((old, file) # others)" and "old \<noteq> []"
      and "Str old \<noteq> getGistTitle (timeRange env)" and "rename_reply w = Inl m"
  shows "fst (fetchGistFilename env w) = Inl (Error m)"
  using assms by (simp add: fetchGistFilename_def Let_def)

section \<open>The stats fetcher\<close>

text \<open>
  Claim C3. When the stats request fails, the fetcher logs the failure and returns no
  snapshot; and when the locator returns a filename, the run goes on to write exactly
  \<^verbatim>\<open>No WakaTime stats available\<close> to the file of that name.
\<close>

theorem failed_fetch_writes_placeholder:
  assumes "stats_fetch_fails env w m" and "fst (fetchGistFilename env w) = Inr file"
  shows "fetchWakaTimeStats env w =
           (None,
            [HttpGet (getWakaTimeEndpoint (timeRange env)) (wakatime_headers env),
             ConsoleLog (Error m),
             LogError (ascii ''Failed to fetch WakaTime stats: '') (Error m)])
       \<and> main env w =
           LogInfo (ascii ''Fetching WakaTime stats and gist filename...'') #
           snd (fetchWakaTimeStats env w) @ snd (fetchGistFilename env w) @
           [LogInfo (ascii ''Updating gist with latest stats...''),
            HttpPatch (gist_url env)
              [(file, \<lparr>set_filename = None,
                       set_content = Some (ascii ''No WakaTime stats available'')\<rparr>)]
              (github_headers env),
            (case update_reply w of
               Inl m' \<Rightarrow> LogError (ascii ''Failed to update gist: '') (Error m')
             | Inr _ \<Rightarrow> LogInfo (ascii ''Gist updated successfully''))]"
proof -
  have fetched: "fetchWakaTimeStats env w =
           (None,
            [HttpGet (getWakaTimeEndpoint (timeRange env)) (wakatime_headers env),
             ConsoleLog (Error m),
             LogError (ascii ''Failed to fetch WakaTime stats: '') (Error m)])"
    using assms(1)
    by (simp add: fetchWakaTimeStats_def stats_fetch_fails_def fetch_failed_def Let_def
        split: if_splits)
  obtain locating where located: "fetchGistFilename env w = (Inr file, locating)"
    using assms(2) by (cases "fetchGistFilename env w") simp
  show ?thesis
    by (simp add: main_def fetched located updateGist_def)
qed

theorem failed_fetch_writes_placeholder_witness:
  "stats_fetch_fails env_unset world_fetch_fails (ascii ''Network Error'')
   \<and> fst (fetchGistFilename env_unset world_fetch_fails) =
       Inr (Str (0x2615 # ascii '' Last 7 Days Coding Stats''))
   \<and> fst (fetchWakaTimeStats env_unset world_fetch_fails) = None
   \<and> filter is_patch (main env_unset world_fetch_fails) =
       [HttpPatch (gist_url env_unset)
          [(Str (ascii ''stats.txt''),
            \<lparr>set_filename = Some (Str (0x2615 # ascii '' Last 7 Days Coding Stats'')),
             set_content = Some (ascii ''old text'')\<rparr>)]
          (github_headers env_unset),
        HttpPatch (gist_url env_unset)
          [(Str (0x2615 # ascii '' Last 7 Days Coding Stats''),
            \<lparr>set_filename = None,
             set_content = Some (ascii ''No WakaTime stats available'')\<rparr>)]
          (github_headers env_unset)]"
proof -
  have fails: "stats_fetch_fails env_unset world_fetch_fails (ascii ''Network Error'')"
    by (simp add: stats_fetch_fails_def timeRange_unset world_fetch_fails_def)
      (simp add: ascii_def)
  have gist: "gist_reply world_fetch_fails = gist_reply world_ok"
    and rename: "rename_reply world_fetch_fails = rename_reply world_ok"
    by (simp_all add: world_fetch_fails_def)
  have same: "fetchGistFilename env_unset world_fetch_fails = fetchGistFilename env_unset world_ok"
    unfolding fetchGistFilename_def gist rename by (rule refl)
  have located: "fst (fetchGistFilename env_unset world_fetch_fails) =
       Inr (Str (0x2615 # ascii '' Last 7 Days Coding Stats''))"
    by (simp add: same locate_sample)
  from failed_fetch_writes_placeholder [OF fails located]
  have run: "fst (fetchWakaTimeStats env_unset world_fetch_fails) = None"
    and patches: "filter is_patch (main env_unset world_fetch_fails) =
       [HttpPatch (gist_url env_unset)
          [(Str (ascii ''stats.txt''),
            \<lparr>set_filename = Some (Str (0x2615 # ascii '' Last 7 Days Coding Stats'')),
             set_content = Some (ascii ''old text'')\<rparr>)]
          (github_headers env_unset),
        HttpPatch (gist_url env_unset)
          [(Str (0x2615 # ascii '' Last 7 Days Coding Stats''),
            \<lparr>set_filename = None,
             set_content = Some (ascii ''No WakaTime stats available'')\<rparr>)]
          (github_headers env_unset)]"
    by (simp_all add: same locate_sample is_patch_def split: sum.splits)
  from fails located run patches show ?thesis by blast
qed

text \<open>
  Claim C9. With the range \<^verbatim>\<open>yesterday\<close> the fetcher asks the summaries endpoint and
  takes the languages of the first summary; a reply without any summary gives a
  snapshot with no language, and no failure.
\<close>

theorem yesterday_uses_summaries:
  assumes "TIME_RANGE env = Some (ascii ''yesterday'')"
  shows "fetchWakaTimeStats env w =
     (let request =
            HttpGet (ascii ''https://wakatime.com/api/v1/users/current/summaries?range=yesterday'')
              (wakatime_headers env)
      in case summaries_reply w of
           Inl m \<Rightarrow>
             (None, [request, ConsoleLog (Error m),
                     LogError (ascii ''Failed to fetch WakaTime stats: '') (Error m)])
         | Inr [] \<Rightarrow> (Some \<lparr>languages = []\<rparr>, [request])
         | Inr (first # _) \<Rightarrow> (Some \<lparr>languages = languages first\<rparr>, [request]))"
proof -
  have r: "timeRange env = ascii ''yesterday''"
    using assms by (simp add: timeRange_def ascii_def)
  have e: "getWakaTimeEndpoint (ascii ''yesterday'') =
      ascii ''https://wakatime.com/api/v1/users/current/summaries?range=yesterday''"
    by (simp add: getWakaTimeEndpoint_def endpoints_summaries_def baseUrl_def ascii_def)
  show ?thesis
    by (simp add: fetchWakaTimeStats_def r e fetch_failed_def Let_def
        split: sum.splits list.splits)
qed

theorem yesterday_uses_summaries_witness:
  "TIME_RANGE env_yesterday = Some (ascii ''yesterday'')
   \<and> fetchWakaTimeStats env_yesterday world_ok =
       (Some \<lparr>languages = []\<rparr>,
        [HttpGet (ascii ''https://wakatime.com/api/v1/users/current/summaries?range=yesterday'')
           (wakatime_headers env_yesterday)])"
proof -
  have range: "TIME_RANGE env_yesterday = Some (ascii ''yesterday'')"
    by (simp add: env_yesterday_def)
  from yesterday_uses_summaries [OF range, of world_ok] range
  show ?thesis by (simp add: world_ok_def)
qed

section \<open>Writing the gist\<close>

lemma map_result_Inr:
  "map_result f xs = Inr ys \<Longrightarrow> length ys = length xs \<and> (\<forall>y \<in> set ys. \<exists>x \<in> set xs. f x = Inr y)"
proof (induction xs arbitrary: ys)
  case Nil
  then show ?case by simp
next
  case (Cons x xs)
  then show ?case
    by (auto split: sum.splits)
qed

lemma last_join:
  "ls \<noteq> [] \<Longrightarrow> \<forall>l \<in> set ls. l \<noteq> [] \<Longrightarrow> join sep ls \<noteq> [] \<and> last (join sep ls) = last (last ls)"
  by (induction sep ls rule: join.induct) auto

lemma format_line_ends_with_percent:
  "format_line env stats lang = Inr l \<Longrightarrow> l \<noteq> [] \<and> last l = 0x25"
  by (auto simp: format_line_def Let_def ascii_def split: sum.splits)

lemma formatStats_ends_with_percent:
  assumes "formatStats env stats = Inr t"
  shows "t = [] \<or> last t = 0x25"
proof -
  obtain ls where ls: "map_result (format_line env stats) (take 5 (languages stats)) = Inr ls"
    and t: "t = join [0x0A] ls"
    using assms by (auto simp: formatStats_def split: sum.splits)
  show ?thesis
  proof (cases "ls = []")
    case True
    with t show ?thesis by simp
  next
    case False
    from map_result_Inr [OF ls]
    have each: "\<forall>l \<in> set ls. l \<noteq> [] \<and> last l = 0x25"
      using format_line_ends_with_percent by blast
    then have "last (join [0x0A] ls) = last (last ls)"
      using last_join [OF False, of "[0x0A]"] by blast
    moreover have "last ls \<in> set ls"
      using False by simp
    ultimately show ?thesis
      using each t by simp
  qed
qed

lemma formatStats_empty: "formatStats env \<lparr>languages = []\<rparr> = Inr []"
  by (simp add: formatStats_def)

text \<open>
  Claim C10. A snapshot with no language is rendered as the empty string, and
  \<open>updateGist\<close> then sends the empty string as the content of the file; so does the
  run when the fetcher returns such a snapshot and the locator a filename. No snapshot
  at all is ever rendered as \<^verbatim>\<open>No WakaTime stats available\<close>: that text is written
  only when the fetcher returned null.
\<close>

theorem empty_snapshot_writes_empty_content:
  "formatStats env \<lparr>languages = []\<rparr> = Inr []
   \<and> updateGist env w (Some \<lparr>languages = []\<rparr>) file =
       (Inr (),
        [HttpPatch (gist_url env)
           [(file, \<lparr>set_filename = None, set_content = Some []\<rparr>)] (github_headers env),
         (case update_reply w of
            Inl m \<Rightarrow> LogError (ascii ''Failed to update gist: '') (Error m)
          | Inr _ \<Rightarrow> LogInfo (ascii ''Gist updated successfully''))])
   \<and> (fst (fetchWakaTimeStats env w) = Some \<lparr>languages = []\<rparr>
        \<and> fst (fetchGistFilename env w) = Inr file \<longrightarrow>
        main env w =
           LogInfo (ascii ''Fetching WakaTime stats and gist filename...'') #
           snd (fetchWakaTimeStats env w) @ snd (fetchGistFilename env w) @
           [LogInfo (ascii ''Updating gist with latest stats...''),
            HttpPatch (gist_url env)
              [(file, \<lparr>set_filename = None, set_content = Some []\<rparr>)] (github_headers env),
            (case update_reply w of
               Inl m \<Rightarrow> LogError (ascii ''Failed to update gist: '') (Error m)
             | Inr _ \<Rightarrow> LogInfo (ascii ''Gist updated successfully''))])
   \<and> (\<forall>stats. formatStats env stats \<noteq> Inr (ascii ''No WakaTime stats available''))"
proof -
  have written: "updateGist env w (Some \<lparr>languages = []\<rparr>) file =
       (Inr (),
        [HttpPatch (gist_url env)
           [(file, \<lparr>set_filename = None, set_content = Some []\<rparr>)] (github_headers env),
         (case update_reply w of
            Inl m \<Rightarrow> LogError (ascii ''Failed to update gist: '') (Error m)
          | Inr _ \<Rightarrow> LogInfo (ascii ''Gist updated successfully''))])"
    by (simp add: updateGist_def formatStats_empty)
  have run: "main env w =
           LogInfo (ascii ''Fetching WakaTime stats and gist filename...'') #
           snd (fetchWakaTimeStats env w) @ snd (fetchGistFilename env w) @
           [LogInfo (ascii ''Updating gist with latest stats...''),
            HttpPatch (gist_url env)
              [(file, \<lparr>set_filename = None, set_content = Some []\<rparr>)] (github_headers env),
            (case update_reply w of
               Inl m \<Rightarrow> LogError (ascii ''Failed to update gist: '') (Error m)
             | Inr _ \<Rightarrow> LogInfo (ascii ''Gist updated successfully''))]"
    if snapshot: "fst (fetchWakaTimeStats env w) = Some \<lparr>languages = []\<rparr>"
      and filename: "fst (fetchGistFilename env w) = Inr file"
  proof -
    obtain fetched where fetch: "fetchWakaTimeStats env w = (Some \<lparr>languages = []\<rparr>, fetched)"
      using snapshot by (cases "fetchWakaTimeStats env w") simp
    obtain locating where located: "fetchGistFilename env w = (Inr file, locating)"
      using filename by (cases "fetchGistFilename env w") simp
    show ?thesis
      by (simp add: main_def fetch located written)
  qed
  have never: "formatStats env stats \<noteq> Inr (ascii ''No WakaTime stats available'')" for stats
  proof
    assume "formatStats env stats = Inr (ascii ''No WakaTime stats available'')"
    from formatStats_ends_with_percent [OF this] show False
      by (simp add: ascii_def)
  qed
  from formatStats_empty written run never show ?thesis by blast
qed

theorem empty_snapshot_writes_empty_content_witness:
  "fst (fetchWakaTimeStats env_unset world_empty_snapshot) = Some \<lparr>languages = []\<rparr>
   \<and> fst (fetchGistFilename env_unset world_empty_snapshot) =
       Inr (Str (0x2615 # ascii '' Last 7 Days Coding Stats''))
   \<and> filter is_patch (main env_unset world_empty_snapshot) =
       [HttpPatch (gist_url env_unset)
          [(Str (ascii ''stats.txt''),
            \<lparr>set_filename = Some (Str (0x2615 # ascii '' Last 7 Days Coding Stats'')),
             set_content = Some (ascii ''old text'')\<rparr>)]
          (github_headers env_unset),
        HttpPatch (gist_url env_unset)
          [(Str (0x2615 # ascii '' Last 7 Days Coding Stats''),
            \<lparr>set_filename = None, set_content = Some []\<rparr>)]
          (github_headers env_unset)]"
proof -
  have fetched: "fetchWakaTimeStats env_unset world_empty_snapshot =
      (Some \<lparr>languages = []\<rparr>,
       [HttpGet (getWakaTimeEndpoint (ascii ''last_7_days'')) (wakatime_headers env_unset)])"
    by (simp add: fetchWakaTimeStats_def timeRange_unset world_empty_snapshot_def Let_def)
      (simp add: ascii_def)
  have gist: "gist_reply world_empty_snapshot = gist_reply world_ok"
    and rename: "rename_reply world_empty_snapshot = rename_reply world_ok"
    by (simp_all add: world_empty_snapshot_def)
  have same: "fetchGistFilename env_unset world_empty_snapshot = fetchGistFilename env_unset world_ok"
    unfolding fetchGistFilename_def gist rename by (rule refl)
  have snapshot: "fst (fetchWakaTimeStats env_unset world_empty_snapshot) = Some \<lparr>languages = []\<rparr>"
    by (simp add: fetched)
  have located: "fst (fetchGistFilename env_unset world_empty_snapshot) =
       Inr (Str (0x2615 # ascii '' Last 7 Days Coding Stats''))"
    by (simp add: same locate_sample)
  from empty_snapshot_writes_empty_content [of env_unset world_empty_snapshot] snapshot located
  have "filter is_patch (main env_unset world_empty_snapshot) =
       [HttpPatch (gist_url env_unset)
          [(Str (ascii ''stats.txt''),
            \<lparr>set_filename = Some (Str (0x2615 # ascii '' Last 7 Days Coding Stats'')),
             set_content = Some (ascii ''old text'')\<rparr>)]
          (github_headers env_unset),
        HttpPatch (gist_url env_unset)
          [(Str (0x2615 # ascii '' Last 7 Days Coding Stats''),
            \<lparr>set_filename = None, set_content = Some []\<rparr>)]
          (github_headers env_unset)]"
    by (simp add: same locate_sample fetched is_patch_def split: sum.splits)
  with snapshot located show ?thesis by blast
qed

section \<open>Selectors outside their enumeration\<close>

lemma unknown_style_throws:
  "map_of PROGRESS_STYLES (style_key env) = None \<Longrightarrow> createProgressBar env p = Inl TypeError"
  by (simp add: createProgressBar_def)

lemma style_key_fancy: "map_of PROGRESS_STYLES (style_key env_fancy) = None"
  by (simp add: style_key_def env_fancy_def env_unset_def toLowerCase_def PROGRESS_STYLES_def
      ascii_def)

lemma timeRange_last_week: "timeRange env_last_week = ascii ''last_week''"
  by (simp add: timeRange_def env_last_week_def env_unset_def ascii_def)

text \<open>
  Claim C1 says that a style or a range outside its enumeration acts as the default.
  The program does otherwise. With \<^verbatim>\<open>PROGRESS_STYLE=fancy\<close> the bar of any percentage
  is a \<^verbatim>\<open>TypeError\<close>, which ends the run in the handler of \<open>main\<close> before any
  content is written. With \<^verbatim>\<open>TIME_RANGE=last_week\<close> the request goes to
  \<^verbatim>\<open>/stats/last_week\<close>, while \<open>getGistTitle\<close> does fall back to the title of the
  default range.
\<close>

theorem unknown_selectors_do_not_default:
  "createProgressBar env_fancy (Num 50) = Inl TypeError
   \<and> formatStats env_fancy sample_stats = Inl TypeError
   \<and> main env_fancy world_ok =
       LogInfo (ascii ''Fetching WakaTime stats and gist filename...'') #
       snd (fetchWakaTimeStats env_fancy world_ok) @ snd (fetchGistFilename env_fancy world_ok) @
       [LogInfo (ascii ''Updating gist with latest stats...''),
        LogError (ascii ''Operation failed: '') TypeError]
   \<and> snd (fetchWakaTimeStats env_last_week world_ok) =
       [HttpGet (ascii ''https://wakatime.com/api/v1/users/current/stats/last_week'')
          (wakatime_headers env_last_week)]
   \<and> getWakaTimeEndpoint (ascii ''last_7_days'') =
       ascii ''https://wakatime.com/api/v1/users/current/stats/last_7_days''
   \<and> getGistTitle (timeRange env_last_week) = Str (0x2615 # ascii '' Last 7 Days Coding Stats'')"
proof -
  have bar: "createProgressBar env_fancy p = Inl TypeError" for p
    by (rule unknown_style_throws [OF style_key_fancy])
  have rendered: "formatStats env_fancy sample_stats = Inl TypeError"
    by (simp add: formatStats_def sample_stats_def format_line_def bar)
  have fetched: "fst (fetchWakaTimeStats env_fancy world_ok) = Some sample_stats"
    by (simp add: fetchWakaTimeStats_def timeRange_def env_fancy_def env_unset_def world_ok_def
        Let_def) (simp add: ascii_def)
  have range: "timeRange env_fancy = timeRange env_unset"
    and url: "gist_url env_fancy = gist_url env_unset"
    and headers: "github_headers env_fancy = github_headers env_unset"
    by (simp_all add: timeRange_def gist_url_def github_headers_def env_fancy_def)
  have located: "fetchGistFilename env_fancy world_ok = fetchGistFilename env_unset world_ok"
    unfolding fetchGistFilename_def range url headers by (rule refl)
  have run: "main env_fancy world_ok =
       LogInfo (ascii ''Fetching WakaTime stats and gist filename...'') #
       snd (fetchWakaTimeStats env_fancy world_ok) @ snd (fetchGistFilename env_fancy world_ok) @
       [LogInfo (ascii ''Updating gist with latest stats...''),
        LogError (ascii ''Operation failed: '') TypeError]"
    using fetched
    by (cases "fetchWakaTimeStats env_fancy world_ok")
      (simp add: main_def located locate_sample updateGist_def rendered)
  have request: "snd (fetchWakaTimeStats env_last_week world_ok) =
       [HttpGet (ascii ''https://wakatime.com/api/v1/users/current/stats/last_week'')
          (wakatime_headers env_last_week)]"
    by (simp add: fetchWakaTimeStats_def timeRange_last_week world_ok_def Let_def
        getWakaTimeEndpoint_def endpoints_stats_def baseUrl_def)
      (simp add: ascii_def)
  have usual: "getWakaTimeEndpoint (ascii ''last_7_days'') =
       ascii ''https://wakatime.com/api/v1/users/current/stats/last_7_days''"
    by (simp add: getWakaTimeEndpoint_def endpoints_stats_def baseUrl_def ascii_def)
  have title: "getGistTitle (timeRange env_last_week) =
      Str (0x2615 # ascii '' Last 7 Days Coding Stats'')"
    by (simp add: timeRange_last_week getGistTitle_def GIST_TITLES_def
        GIST_TITLES_last_7_days_def Object_prototype_keys_def ascii_def)
  from bar rendered run request usual title show ?thesis by blast
qed

section \<open>Rounding to the nearest double\<close>

lemma expo_bounds:
  assumes "0 < x"
  shows "2 powi expo x \<le> x \<and> x < 2 powi (expo x + 1)"
proof -
  obtain a b where q: "quotient_of x = (a, b)"
    by (cases "quotient_of x")
  have b: "0 < b" using q by (rule quotient_of_denom_pos)
  have x: "x = of_int a / of_int b" using q by (rule quotient_of_div)
  have a: "0 < a"
    using assms b x by (simp add: zero_less_divide_iff)
  define la where "la = floorlog 2 (nat a)"
  define lb where "lb = floorlog 2 (nat b)"
  have A: "2 ^ (la - 1) \<le> nat a" "nat a < 2 ^ la"
    using floorlog_bounds [of "nat a" 2] a by (simp_all add: la_def)
  have B: "2 ^ (lb - 1) \<le> nat b" "nat b < 2 ^ lb"
    using floorlog_bounds [of "nat b" 2] b by (simp_all add: lb_def)
  have la: "0 < la" and lb: "0 < lb"
    using a b by (simp_all add: la_def lb_def floorlog_def)
  have ra: "(2::rat) ^ (la - 1) \<le> of_int a" "(of_int a :: rat) < 2 ^ la"
  proof -
    have "(of_nat (2 ^ (la - 1)) :: rat) \<le> of_nat (nat a)"
      using A(1) by (simp only: of_nat_le_iff)
    then show "(2::rat) ^ (la - 1) \<le> of_int a" using a by simp
    have "(of_nat (nat a) :: rat) < of_nat (2 ^ la)"
      using A(2) by (simp only: of_nat_less_iff)
    then show "(of_int a :: rat) < 2 ^ la" using a by simp
  qed
  have rb: "(2::rat) ^ (lb - 1) \<le> of_int b" "(of_int b :: rat) < 2 ^ lb"
  proof -
    have "(of_nat (2 ^ (lb - 1)) :: rat) \<le> of_nat (nat b)"
      using B(1) by (simp only: of_nat_le_iff)
    then show "(2::rat) ^ (lb - 1) \<le> of_int b" using b by simp
    have "(of_nat (nat b) :: rat) < of_nat (2 ^ lb)"
      using B(2) by (simp only: of_nat_less_iff)
    then show "(of_int b :: rat) < 2 ^ lb" using b by simp
  qed
  define d where "d = int la - int lb"
  have low: "(2::rat) powi (d - 1) \<le> x"
  proof -
    have "(2::rat) powi (d - 1) = 2 powi (int (la - 1) - int lb)"
      using la by (simp add: d_def of_nat_diff algebra_simps)
    also have "\<dots> = 2 ^ (la - 1) / 2 ^ lb"
      by (simp add: power_int_diff)
    also have "\<dots> \<le> of_int a / of_int b"
      using ra(1) rb(2) a b by (intro frac_le) simp_all
    finally show ?thesis by (simp add: x)
  qed
  have high: "x < (2::rat) powi (d + 1)"
  proof -
    have "of_int a / of_int b < (2::rat) ^ la / 2 ^ (lb - 1)"
      using ra(2) rb(1) a b by (intro frac_less) simp_all
    also have "\<dots> = 2 powi (int la - int (lb - 1))"
      by (simp add: power_int_diff)
    also have "\<dots> = 2 powi (d + 1)"
      using lb by (simp add: d_def of_nat_diff algebra_simps)
    finally show ?thesis by (simp add: x)
  qed
  have e: "expo x = (if 2 powi d \<le> x then d else d - 1)"
    by (simp add: expo_def q la_def lb_def d_def)
  show ?thesis
    using low high by (auto simp: e)
qed

lemma round_half_even_cases:
  "round_half_even r = \<lfloor>r\<rfloor> \<and> r - of_int \<lfloor>r\<rfloor> \<le> 1 / 2
   \<or> round_half_even r = \<lfloor>r\<rfloor> + 1 \<and> 1 / 2 \<le> r - of_int \<lfloor>r\<rfloor>"
  by (auto simp: round_half_even_def Let_def)

lemma round_half_even_error: "\<bar>of_int (round_half_even r) - r\<bar> \<le> 1 / 2"
proof -
  have "of_int \<lfloor>r\<rfloor> \<le> r" "r < of_int \<lfloor>r\<rfloor> + 1"
    by linarith+
  then show ?thesis
    using round_half_even_cases [of r] by (auto simp: abs_le_iff)
qed

lemma round_half_even_of_int [simp]: "round_half_even (of_int n) = n"
  by (simp add: round_half_even_def)

lemma round_half_even_le:
  assumes "r \<le> of_int n"
  shows "round_half_even r \<le> n"
proof -
  have f: "\<lfloor>r\<rfloor> \<le> n" using assms by (simp add: floor_le_iff)
  show ?thesis
  proof (cases "round_half_even r = \<lfloor>r\<rfloor>")
    case True
    with f show ?thesis by simp
  next
    case False
    then have up: "round_half_even r = \<lfloor>r\<rfloor> + 1" and "1 / 2 \<le> r - of_int \<lfloor>r\<rfloor>"
      using round_half_even_cases [of r] by auto
    then have "of_int \<lfloor>r\<rfloor> < r" by linarith
    with assms have "(of_int \<lfloor>r\<rfloor> :: rat) < of_int n" by linarith
    then have "\<lfloor>r\<rfloor> < n" by (simp only: of_int_less_iff)
    with up show ?thesis by simp
  qed
qed

lemma round_half_even_ge:
  assumes "of_int n \<le> r"
  shows "n \<le> round_half_even r"
proof -
  have "n \<le> \<lfloor>r\<rfloor>" using assms by (simp add: le_floor_iff)
  then show ?thesis
    using round_half_even_cases [of r] by auto
qed

lemma fl_zero [simp]: "fl 0 = 0"
  by (simp add: fl_def)


lemma fl_minus: "fl (- x) = - fl x"
  by (simp add: fl_def Let_def)


lemma fl_pos:
  "0 < x \<Longrightarrow> fl x = of_int (round_half_even (x / 2 powi (expo x - 52))) * 2 powi (expo x - 52)"
  by (simp add: fl_def Let_def)


lemma fl_error:
  assumes "0 < x"
  shows "\<bar>fl x - x\<bar> \<le> 2 powi (expo x - 53)"
proof -
  define g :: rat where "g = 2 powi (expo x - 52)"
  have g: "0 < g" by (simp add: g_def)
  have half: "g / 2 = 2 powi (expo x - 53)"
    using power_int_diff [of "2::rat" "expo x - 52" 1] by (simp add: g_def)
  have "fl x - x = g * (of_int (round_half_even (x / g)) - x / g)"
    using g by (simp add: fl_pos [OF assms] g_def [symmetric] algebra_simps)
  then have "\<bar>fl x - x\<bar> = g * \<bar>of_int (round_half_even (x / g)) - x / g\<bar>"
    using g by (simp add: abs_mult)
  also have "\<dots> \<le> g * (1 / 2)"
    using g round_half_even_error [of "x / g"] by (intro mult_left_mono) simp_all
  finally show ?thesis by (simp add: half [symmetric])
qed


lemma fl_relative_error:
  assumes "0 < x"
  shows "\<bar>fl x - x\<bar> \<le> x / 2 ^ 53"
proof -
  have "(2::rat) powi (expo x - 53) = 2 powi expo x / 2 ^ 53"
    using power_int_diff [of "2::rat" "expo x" 53] by simp
  also have "\<dots> \<le> x / 2 ^ 53"
    using expo_bounds [OF assms] by (simp add: divide_right_mono)
  finally show ?thesis
    using fl_error [OF assms] by linarith
qed


lemma expo_less:
  assumes "0 < x" and "x < 2 powi n"
  shows "expo x < n"
proof (rule ccontr)
  assume "\<not> expo x < n"
  then have "(2::rat) powi n \<le> 2 powi expo x"
    by (intro power_int_increasing) simp_all
  with expo_bounds [OF assms(1)] assms(2) show False by linarith
qed


text \<open>
  Below \<open>2^53 / 2^k\<close> the doubles include every multiple of \<open>1 / 2^k\<close>, and rounding
  does not step over one of them.
\<close>


lemma grid_of_small:
  assumes "0 < x" and "x * 2 ^ k < 2 ^ 53"
  obtains j :: nat where "2 powi (expo x - 52) = 1 / ((2::rat) ^ k * 2 ^ j)"
proof -
  have "x < 2 ^ 53 / 2 ^ k"
    using assms(2) by (simp add: pos_less_divide_eq)
  also have "\<dots> = (2::rat) powi (53 - int k)"
    using power_int_diff [of "2::rat" 53 "int k"] by simp
  finally have "expo x < 53 - int k"
    using expo_less [OF assms(1)] by blast
  then have j: "0 \<le> 52 - expo x - int k" by simp
  define j where "j = nat (52 - expo x - int k)"
  have "expo x - 52 = - (int k + int j)"
    using j by (simp add: j_def)
  then have "(2::rat) powi (expo x - 52) = 2 powi (- (int k + int j))"
    by simp
  also have "\<dots> = 1 / (2 powi (int k + int j))"
    by (rule power_int_minus_divide)
  also have "\<dots> = 1 / ((2::rat) ^ k * 2 ^ j)"
    by (simp add: power_int_add)
  finally show ?thesis by (rule that)
qed


lemma fl_le_grid:
  assumes "0 < x" and "x * 2 ^ k < 2 ^ 53" and "x \<le> of_int n / 2 ^ k"
  shows "fl x \<le> of_int n / 2 ^ k"
proof -
  obtain j :: nat where g: "2 powi (expo x - 52) = 1 / ((2::rat) ^ k * 2 ^ j)"
    using grid_of_small [OF assms(1,2)] by blast
  have "x * (2 ^ k * 2 ^ j) \<le> of_int n / 2 ^ k * (2 ^ k * 2 ^ j)"
    using assms(3) by (intro mult_right_mono) simp_all
  then have "x * (2 ^ k * 2 ^ j) \<le> of_int (n * 2 ^ j)"
    by simp
  then have "round_half_even (x * (2 ^ k * 2 ^ j)) \<le> n * 2 ^ j"
    by (rule round_half_even_le)
  then have "(of_int (round_half_even (x * (2 ^ k * 2 ^ j))) :: rat) \<le> of_int (n * 2 ^ j)"
    by (simp only: of_int_le_iff)
  then have "of_int (round_half_even (x * (2 ^ k * 2 ^ j))) / ((2::rat) ^ k * 2 ^ j)
      \<le> of_int (n * 2 ^ j) / (2 ^ k * 2 ^ j)"
    by (intro divide_right_mono) simp_all
  then show ?thesis
    by (simp add: fl_pos [OF assms(1)] g)
qed


lemma fl_ge_grid:
  assumes "0 < x" and "x * 2 ^ k < 2 ^ 53" and "of_int n / 2 ^ k \<le> x"
  shows "of_int n / 2 ^ k \<le> fl x"
proof -
  obtain j :: nat where g: "2 powi (expo x - 52) = 1 / ((2::rat) ^ k * 2 ^ j)"
    using grid_of_small [OF assms(1,2)] by blast
  have "of_int n / 2 ^ k * (2 ^ k * 2 ^ j) \<le> x * (2 ^ k * 2 ^ j)"
    using assms(3) by (intro mult_right_mono) simp_all
  then have "of_int (n * 2 ^ j) \<le> x * (2 ^ k * 2 ^ j)"
    by simp
  then have "n * 2 ^ j \<le> round_half_even (x * (2 ^ k * 2 ^ j))"
    by (rule round_half_even_ge)
  then have "(of_int (n * 2 ^ j) :: rat) \<le> of_int (round_half_even (x * (2 ^ k * 2 ^ j)))"
    by (simp only: of_int_le_iff)
  then have "of_int (n * 2 ^ j) / ((2::rat) ^ k * 2 ^ j)
      \<le> of_int (round_half_even (x * (2 ^ k * 2 ^ j))) / (2 ^ k * 2 ^ j)"
    by (intro divide_right_mono) simp_all
  then show ?thesis
    by (simp add: fl_pos [OF assms(1)] g)
qed


lemma fl_dyadic:
  assumes "0 \<le> m" and "m < 2 ^ 53"
  shows "fl (of_int m / 2 ^ k) = of_int m / 2 ^ k"
proof (cases "m = 0")
  case True
  then show ?thesis by simp
next
  case False
  with assms(1) have pos: "0 < (of_int m :: rat) / 2 ^ k" by simp
  have "(of_int m :: rat) < of_int (2 ^ 53)"
    using assms(2) by (simp only: of_int_less_iff)
  then have small: "(of_int m :: rat) / 2 ^ k * 2 ^ k < 2 ^ 53" by simp
  show ?thesis
    using fl_le_grid [OF pos small, of m] fl_ge_grid [OF pos small, of m] by simp
qed


lemma fl_of_nat:
  assumes "n < 2 ^ 53"
  shows "fl (of_nat n) = of_nat n"
proof -
  have "int n < int (2 ^ 53)"
    using assms by (simp only: of_nat_less_iff)
  then have "int n < 2 ^ 53" by simp
  from fl_dyadic [of "int n" 0, OF _ this] show ?thesis by simp
qed

lemma fl_nonneg:
  assumes "0 \<le> x"
  shows "0 \<le> fl x"
proof (cases "x = 0")
  case True
  then show ?thesis by simp
next
  case False
  with assms have pos: "0 < x" by simp
  have "0 \<le> round_half_even (x / 2 powi (expo x - 52))"
    using pos by (intro round_half_even_ge) simp
  then show ?thesis
    by (simp add: fl_pos [OF pos])
qed


lemma fl_le_int:
  assumes "0 < x" and "x < 2 ^ 53" and "x \<le> of_int n"
  shows "fl x \<le> of_int n"
  using fl_le_grid [of x 0 n] assms by simp


lemma fl_ge_int:
  assumes "0 < x" and "x < 2 ^ 53" and "of_int n \<le> x"
  shows "of_int n \<le> fl x"
  using fl_ge_grid [of x 0 n] assms by simp

section \<open>Durations\<close>

lemma floor_fl_div:
  assumes "s < 2 ^ 53" and "0 < d"
  shows "\<lfloor>fl (of_nat s / of_nat d)\<rfloor> = int (s div d)"
proof (cases "s = 0")
  case True
  then show ?thesis by simp
next
  case False
  define q :: rat where "q = of_nat s / of_nat d"
  have s: "(of_nat s :: rat) < 2 ^ 53"
  proof -
    have "(of_nat s :: rat) < of_nat (2 ^ 53)"
      using assms(1) by (simp only: of_nat_less_iff)
    then show ?thesis by simp
  qed
  have d: "(1::rat) \<le> of_nat d" "(0::rat) < of_nat d"
    using assms(2) by simp_all
  have pos: "0 < q"
    using False assms(2) by (simp add: q_def)
  have "q \<le> of_nat s / 1"
    unfolding q_def using d by (intro divide_left_mono) simp_all
  with s have small: "q < 2 ^ 53" by simp
  have split: "of_nat s = (of_nat (s div d) :: rat) * of_nat d + of_nat (s mod d)"
    by (simp flip: of_nat_mult of_nat_add)
  have q_eq: "q = of_nat (s div d) + of_nat (s mod d) / of_nat d"
    using d by (simp add: q_def split add_divide_distrib)
  have low: "of_int (int (s div d)) \<le> q"
    using d by (simp add: q_eq)
  have "s mod d + 1 \<le> d"
    using assms(2) by (simp add: Suc_leI)
  then have "(of_nat (s mod d + 1) :: rat) \<le> of_nat d"
    by (simp only: of_nat_le_iff)
  then have "(of_nat (s mod d) :: rat) / of_nat d \<le> (of_nat d - 1) / of_nat d"
    using d by (intro divide_right_mono) simp_all
  then have up: "q \<le> of_nat (s div d) + 1 - 1 / of_nat d"
    using d by (simp add: q_eq diff_divide_distrib)
  have "q / 2 ^ 53 = (of_nat s / 2 ^ 53) / of_nat d"
    by (simp add: q_def)
  also have "\<dots> < 1 / of_nat d"
    using s d by (intro divide_strict_right_mono) simp_all
  finally have err: "q / 2 ^ 53 < 1 / of_nat d" .
  have "fl q \<le> q + q / 2 ^ 53"
    using fl_relative_error [OF pos] by linarith
  with up err have high: "fl q < of_int (int (s div d)) + 1"
    by simp
  have "of_int (int (s div d)) \<le> fl q"
    using pos small low by (rule fl_ge_int)
  with high have "\<lfloor>fl q\<rfloor> = int (s div d)"
    by (simp add: floor_unique)
  then show ?thesis by (simp add: q_def)
qed

lemma digit_range:
  assumes "m < 10"
  shows "48 \<le> (of_nat (48 + m) :: 16 word) \<and> (of_nat (48 + m) :: 16 word) \<le> 57"
proof -
  have "m = 0 \<or> m = 1 \<or> m = 2 \<or> m = 3 \<or> m = 4 \<or> m = 5 \<or> m = 6 \<or> m = 7 \<or> m = 8 \<or> m = 9"
    using assms by arith
  then show ?thesis by auto
qed

lemma show_nat_digits: "show_nat n \<noteq> [] \<and> (\<forall>c \<in> set (show_nat n). 48 \<le> c \<and> c \<le> 57)"
proof (induction n rule: show_nat.induct)
  case (1 n)
  show ?case
  proof (cases "n < 10")
    case True
    then have "show_nat n = [of_nat (48 + n)]"
      by (subst show_nat.simps) simp
    with digit_range [OF True] show ?thesis by simp
  next
    case False
    have "show_nat n = show_nat (n div 10) @ [of_nat (48 + n mod 10)]"
      using False by (subst show_nat.simps) simp
    moreover have "48 \<le> (of_nat (48 + n mod 10) :: 16 word) \<and> (of_nat (48 + n mod 10) :: 16 word) \<le> 57"
      by (rule digit_range) simp
    ultimately show ?thesis
      using 1 False by auto
  qed
qed

lemma digit_not_white:
  assumes "48 \<le> c" and "c \<le> 57"
  shows "\<not> is_white_space c"
proof
  assume "is_white_space c"
  then consider "c \<in> {0x09, 0x0A, 0x0B, 0x0C, 0x0D, 0x20, 0xA0, 0x1680, 0x2028, 0x2029, 0x202F,
          0x205F, 0x3000, 0xFEFF}" | "0x2000 \<le> c"
    by (auto simp: is_white_space_def)
  then show False
  proof cases
    case 1
    with assms show False by auto
  next
    case 2
    from 2 assms(2) have "(0x2000 :: 16 word) \<le> 57" by (rule order_trans)
    then show False by simp
  qed
qed

lemma trim_solid:
  assumes "s \<noteq> []" and "\<not> is_white_space (hd s)" and "\<not> is_white_space (last s)"
  shows "trim s = s" and "trim (s @ [0x20]) = s"
proof -
  have lead: "dropWhile is_white_space (s @ t) = s @ t" for t
    using assms(1,2) by (cases s) simp_all
  have trail: "dropWhile is_white_space (rev s) = rev s"
    using assms(1,3) by (cases "rev s") (simp_all add: last_rev [symmetric] hd_rev)
  show "trim s = s"
    using lead [of "[]"] trail by (simp add: trim_def)
  have "is_white_space 0x20" by (simp add: is_white_space_def)
  then show "trim (s @ [0x20]) = s"
    using lead [of "[0x20]"] trail by (simp add: trim_def)
qed

lemma show_int_of_nat [simp]: "show_int (int n) = show_nat n"
  by (simp add: show_int_def)

lemma show_nat_solid:
  "show_nat n \<noteq> []" "\<not> is_white_space (hd (show_nat n))"
  using show_nat_digits [of n] digit_not_white [of "hd (show_nat n)"]
  by (simp_all add: hd_in_set)

lemma formatDuration_parts:
  assumes "seconds < 2 ^ 53"
  shows "formatDuration seconds =
     (let hours = seconds div 3600; minutes = seconds mod 3600 div 60;
          s = trim ((if hours \<noteq> 0 then show_nat hours @ ascii '' hrs '' else []) @
                    (if minutes \<noteq> 0 then show_nat minutes @ ascii '' mins'' else []))
      in if s = [] then ascii ''0 mins'' else s)"
proof -
  have h: "\<lfloor>fl (of_nat seconds / 3600)\<rfloor> = int (seconds div 3600)"
    using floor_fl_div [OF assms, of 3600] by simp
  have "seconds mod 3600 \<le> seconds" by simp
  from this assms have "seconds mod 3600 < 2 ^ 53" by (rule le_less_trans)
  then have m: "\<lfloor>fl (of_nat (seconds mod 3600) / 60)\<rfloor> = int (seconds mod 3600 div 60)"
    using floor_fl_div [of "seconds mod 3600" 60] by simp
  show ?thesis
    unfolding formatDuration_def h m by (simp add: Let_def)
qed

lemma formatDuration_cases:
  assumes "seconds < 2 ^ 53"
  shows "formatDuration seconds =
     (let hours = seconds div 3600; minutes = seconds mod 3600 div 60
      in if hours = 0 \<and> minutes = 0 then ascii ''0 mins''
         else if minutes = 0 then show_nat hours @ ascii '' hrs''
         else if hours = 0 then show_nat minutes @ ascii '' mins''
         else show_nat hours @ ascii '' hrs '' @ show_nat minutes @ ascii '' mins'')"
proof -
  define h where "h = seconds div 3600"
  define m where "m = seconds mod 3600 div 60"
  define H where "H = show_nat h"
  define M where "M = show_nat m"
  have H: "H \<noteq> []" "\<not> is_white_space (hd H)" and M: "M \<noteq> []" "\<not> is_white_space (hd M)"
    by (simp_all add: H_def M_def show_nat_solid)
  have s: "\<not> is_white_space 0x73"
    by (simp add: is_white_space_def)
  have both: "trim (H @ ascii '' hrs '' @ M @ ascii '' mins'') = H @ ascii '' hrs '' @ M @ ascii '' mins''"
    using H s by (intro trim_solid(1)) (simp_all add: ascii_def)
  have "trim ((H @ ascii '' hrs'') @ [0x20]) = H @ ascii '' hrs''"
    using H s by (intro trim_solid(2)) (simp_all add: ascii_def)
  then have hours_only: "trim (H @ ascii '' hrs '') = H @ ascii '' hrs''"
    by (simp add: ascii_def)
  have minutes_only: "trim (M @ ascii '' mins'') = M @ ascii '' mins''"
    using M s by (intro trim_solid(1)) (simp_all add: ascii_def)
  have none: "trim [] = []"
    by (simp add: trim_def)
  have "formatDuration seconds =
     (let s = trim ((if h \<noteq> 0 then H @ ascii '' hrs '' else []) @
                    (if m \<noteq> 0 then M @ ascii '' mins'' else []))
      in if s = [] then ascii ''0 mins'' else s)"
    unfolding formatDuration_parts [OF assms] h_def m_def H_def M_def Let_def by (rule refl)
  also have "\<dots> =
     (if h = 0 \<and> m = 0 then ascii ''0 mins''
      else if m = 0 then H @ ascii '' hrs''
      else if h = 0 then M @ ascii '' mins''
      else H @ ascii '' hrs '' @ M @ ascii '' mins'')"
    using both hours_only minutes_only none H M by (simp add: Let_def)
  finally show ?thesis
    unfolding h_def m_def H_def M_def Let_def .
qed

text \<open>
  Claim C7. For whole seconds below \<open>2^53\<close> (the integers a double holds exactly),
  \<open>formatDuration\<close> prints the whole hours and the whole minutes of the remainder,
  each only when it is not zero, with one space between them, and \<^verbatim>\<open>0 mins\<close> when
  both are zero. The divisions are rounded to a double before \<^verbatim>\<open>Math.floor\<close>; the
  rounding never reaches the next integer.
\<close>

theorem formatDuration_spec:
  assumes "seconds < 2 ^ 53"
  shows "formatDuration seconds =
     (let hours = seconds div 3600; minutes = seconds mod 3600 div 60
      in if hours = 0 \<and> minutes = 0 then ascii ''0 mins''
         else if minutes = 0 then show_nat hours @ ascii '' hrs''
         else if hours = 0 then show_nat minutes @ ascii '' mins''
         else show_nat hours @ ascii '' hrs '' @ show_nat minutes @ ascii '' mins'')"
  using assms by (rule formatDuration_cases)

lemma show_nat_1: "show_nat (Suc 0) = ascii ''1''"
  by (subst show_nat.simps) (simp add: ascii_def)

theorem formatDuration_spec_witness:
  "(0::nat) < 2 ^ 53 \<and> (3661::nat) < 2 ^ 53 \<and> (60::nat) < 2 ^ 53
   \<and> formatDuration 0 = ascii ''0 mins''
   \<and> formatDuration 3661 = ascii ''1 hrs 1 mins''
   \<and> formatDuration 60 = ascii ''1 mins''"
proof -
  have a: "(0::nat) < 2 ^ 53" and b: "(3661::nat) < 2 ^ 53" and c: "(60::nat) < 2 ^ 53"
    by simp_all
  have "formatDuration 0 = ascii ''0 mins''"
    using formatDuration_spec [OF a] by simp
  moreover have "formatDuration 3661 = ascii ''1 hrs 1 mins''"
    using formatDuration_spec [OF b] by (simp add: show_nat_1) (simp add: ascii_def)
  moreover have "formatDuration 60 = ascii ''1 mins''"
    using formatDuration_spec [OF c] by (simp add: show_nat_1) (simp add: ascii_def)
  ultimately show ?thesis using a b c by blast
qed

section \<open>The progress bar\<close>

lemma unit_fraction:
  assumes "0 \<le> p" and "p \<le> 100"
  shows "0 \<le> fl (p / 100) \<and> fl (p / 100) \<le> 1"
proof (cases "p = 0")
  case True
  then show ?thesis by simp
next
  case False
  with assms have pos: "0 < p / 100" by simp
  have "p / 100 \<le> 1" using assms by simp
  then have "fl (p / 100) \<le> of_int 1"
    using pos by (intro fl_le_int) simp_all
  with fl_nonneg [of "p / 100"] pos show ?thesis by simp
qed

lemma scaled_fraction:
  assumes "0 \<le> t" and "t \<le> 1" and "b < 2 ^ 53"
  shows "0 \<le> fl (t * of_nat b) \<and> fl (t * of_nat b) \<le> of_nat b"
proof (cases "t * of_nat b = 0")
  case True
  then have "fl (t * of_nat b) = 0" by (simp only: fl_zero)
  then show ?thesis by simp
next
  case False
  have "0 \<le> t * of_nat b"
    using assms(1) by simp
  with False have pos: "0 < t * of_nat b"
    by linarith
  have "t * of_nat b \<le> 1 * of_nat b"
    using assms(2) by (intro mult_right_mono) simp_all
  then have le: "t * of_nat b \<le> of_int (int b)"
    by simp
  have "(of_nat b :: rat) < of_nat (2 ^ 53)"
    using assms(3) by (simp only: of_nat_less_iff)
  then have "(of_int (int b) :: rat) < 2 ^ 53"
    by simp
  with le have small: "t * of_nat b < 2 ^ 53"
    by (rule le_less_trans)
  have "fl (t * of_nat b) \<le> of_int (int b)"
    using pos small le by (rule fl_le_int)
  moreover have "0 \<le> fl (t * of_nat b)"
    using \<open>0 \<le> t * of_nat b\<close> by (rule fl_nonneg)
  ultimately show ?thesis by simp
qed

lemma rounded_blocks_range:
  assumes "0 \<le> p" and "p \<le> 100" and "b < 2 ^ 53"
  shows "0 \<le> rounded_blocks p b \<and> rounded_blocks p b \<le> int b"
proof -
  from unit_fraction [OF assms(1,2)] scaled_fraction [OF _ _ assms(3), of "fl (p / 100)"]
  have u: "0 \<le> fl (fl (p / 100) * of_nat b)" "fl (fl (p / 100) * of_nat b) \<le> of_nat b"
    by simp_all
  have "\<lfloor>fl (fl (p / 100) * of_nat b) + 1 / 2\<rfloor> \<le> int b"
    using u(2) by (simp add: floor_le_iff)
  moreover have "0 \<le> \<lfloor>fl (fl (p / 100) * of_nat b) + 1 / 2\<rfloor>"
    using u(1) by (simp add: le_floor_iff)
  ultimately show ?thesis by (simp add: rounded_blocks_def)
qed

lemma createProgressBar_finite:
  assumes st: "map_of PROGRESS_STYLES (style_key env) = Some st"
      and k: "0 \<le> rounded_blocks p (blocks st)" "rounded_blocks p (blocks st) \<le> int (blocks st)"
      and b: "blocks st < 2 ^ 53"
  shows "createProgressBar env (Num p) = Inr (bar_of st (nat (rounded_blocks p (blocks st))))"
proof -
  define k where "k = rounded_blocks p (blocks st)"
  have count: "Math_round (num_mul (num_div (Num p) (Num 100)) (Num (of_nat (blocks st)))) = Num (of_int k)"
    by (simp add: k_def rounded_blocks_def)
  have "0 \<le> int (blocks st) - k" "int (blocks st) - k < 2 ^ 53"
    using assms(2,3,4) by (simp_all add: k_def)
  then have "fl (of_int (int (blocks st) - k) / 2 ^ 0) = of_int (int (blocks st) - k) / 2 ^ 0"
    by (rule fl_dyadic)
  then have rest: "num_sub (Num (of_nat (blocks st))) (Num (of_int k)) = Num (of_int (int (blocks st) - k))"
    by simp
  have n: "nat (int (blocks st) - k) = blocks st - nat k"
    using assms(2,3) by (simp add: k_def nat_diff_distrib')
  have ok: "\<not> (of_int k :: rat) \<le> - 1" "\<not> (of_int (int (blocks st) - k) :: rat) \<le> - 1"
    using assms(2,3) by (simp_all add: k_def)
  have "createProgressBar env (Num p) =
      (case repeat (filled st) (Num (of_int k)) of
         Inl e \<Rightarrow> Inl e
       | Inr bar \<Rightarrow>
           (case repeat (empty st) (Num (of_int (int (blocks st) - k))) of
              Inl e \<Rightarrow> Inl e
            | Inr rest \<Rightarrow> Inr (bar @ rest)))"
    unfolding createProgressBar_def st option.case Let_def count rest by (rule refl)
  also have "\<dots> = Inr (bar_of st (nat k))"
    using ok by (simp add: bar_of_def n)
  finally show ?thesis by (simp add: k_def)
qed

lemma known_styles:
  assumes "map_of PROGRESS_STYLES key = Some st"
  shows "blocks st \<in> {14, 16, 25} \<and> length (filled st) = 1 \<and> length (empty st) = 1"
  using assms by (auto simp: PROGRESS_STYLES_def ascii_def split: if_splits)

lemma floor_plus_half: "\<lfloor>of_int n + 1 / 2 :: rat\<rfloor> = n"
  by (rule floor_unique) simp_all

lemma rounded_blocks_0: "rounded_blocks 0 b = 0"
proof -
  have "\<lfloor>of_int 0 + 1 / 2 :: rat\<rfloor> = 0" by (rule floor_plus_half)
  then show ?thesis by (simp add: rounded_blocks_def)
qed

lemma rounded_blocks_100:
  assumes "b < 2 ^ 53"
  shows "rounded_blocks 100 b = int b"
proof -
  have "fl (of_nat b) = of_nat b" using assms by (rule fl_of_nat)
  moreover have "fl 1 = 1" using fl_of_nat [of 1] by simp
  ultimately have "rounded_blocks 100 b = \<lfloor>of_int (int b) + 1 / 2 :: rat\<rfloor>"
    by (simp add: rounded_blocks_def)
  then show ?thesis by (simp only: floor_plus_half)
qed

lemma fl_half: "fl (1 / 2) = 1 / 2"
proof -
  have "fl (of_int 1 / 2 ^ 1) = of_int 1 / 2 ^ 1"
    by (rule fl_dyadic) simp_all
  then show ?thesis by (simp only: of_int_1 power_one_right)
qed

lemma rounded_blocks_50:
  assumes "b < 2 ^ 53"
  shows "rounded_blocks 50 b = \<lfloor>of_nat b / 2 + 1 / 2 :: rat\<rfloor>"
proof -
  have "int b < int (2 ^ 53)"
    using assms by (simp only: of_nat_less_iff)
  then have "int b < 2 ^ 53" by simp
  then have "fl (of_int (int b) / 2 ^ 1) = of_int (int b) / 2 ^ 1"
    by (intro fl_dyadic) simp_all
  then have half: "fl (of_nat b / 2) = of_nat b / 2"
    by (simp only: of_int_of_nat_eq power_one_right)
  have "(50::rat) / 100 = 1 / 2" by simp
  then have "rounded_blocks 50 b = \<lfloor>fl (1 / 2 * of_nat b) + 1 / 2\<rfloor>"
    by (simp only: rounded_blocks_def fl_half)
  also have "1 / 2 * (of_nat b :: rat) = of_nat b / 2" by simp
  finally show ?thesis by (simp only: half)
qed

text \<open>
  Claim C8. For a percentage between 0 and 100 and each of the three styles, the bar is
  \<^verbatim>\<open>Math.round((p / 100) * blocks)\<close> filled glyphs followed by empty glyphs up to
  the block count; no count is negative, so \<^verbatim>\<open>repeat\<close> does not throw. The bar of
  0 is all empty, the bar of 100 all filled, and the bar of 50 has the block count
  halved and rounded as its filled part. The quotient and the product are rounded to
  doubles as JavaScript rounds them.
\<close>

theorem createProgressBar_spec:
  assumes "map_of PROGRESS_STYLES (style_key env) = Some st" and "0 \<le> p" and "p \<le> 100"
  shows "0 \<le> rounded_blocks p (blocks st) \<and> rounded_blocks p (blocks st) \<le> int (blocks st)
       \<and> createProgressBar env (Num p) = Inr (bar_of st (nat (rounded_blocks p (blocks st))))
       \<and> createProgressBar env (Num 0) = Inr (concat (replicate (blocks st) (empty st)))
       \<and> createProgressBar env (Num 100) = Inr (concat (replicate (blocks st) (filled st)))
       \<and> createProgressBar env (Num 50) =
           Inr (bar_of st (nat \<lfloor>of_nat (blocks st) / 2 + 1 / 2 :: rat\<rfloor>))"
proof -
  have "blocks st \<le> 25"
    using known_styles [OF assms(1)] by auto
  then have b: "blocks st < 2 ^ 53" by simp
  have bar: "createProgressBar env (Num q) = Inr (bar_of st (nat (rounded_blocks q (blocks st))))"
    if "0 \<le> q" "q \<le> 100" for q
    using rounded_blocks_range [OF that b] createProgressBar_finite [OF assms(1) _ _ b, of q]
    by blast
  have none: "createProgressBar env (Num 0) = Inr (concat (replicate (blocks st) (empty st)))"
    using bar [of 0] by (simp add: rounded_blocks_0 bar_of_def)
  have full: "createProgressBar env (Num 100) = Inr (concat (replicate (blocks st) (filled st)))"
    using bar [of 100] by (simp add: rounded_blocks_100 [OF b] bar_of_def)
  have half: "createProgressBar env (Num 50) =
           Inr (bar_of st (nat \<lfloor>of_nat (blocks st) / 2 + 1 / 2 :: rat\<rfloor>))"
    using bar [of 50] by (simp add: rounded_blocks_50 [OF b])
  from rounded_blocks_range [OF assms(2,3) b] bar [OF assms(2,3)] none full half
  show ?thesis by blast
qed

lemma style_default:
  "map_of PROGRESS_STYLES (style_key env_unset) =
     Some \<lparr>filled = [0x25B0], empty = [0x25B1], blocks = 14\<rparr>"
  by (simp add: style_key_def env_unset_def PROGRESS_STYLES_def ascii_def)

lemma style_hash:
  "map_of PROGRESS_STYLES (style_key env_hash) =
     Some \<lparr>filled = ascii ''#'', empty = ascii ''-'', blocks = 25\<rparr>"
  by (simp add: style_key_def env_hash_def env_unset_def toLowerCase_def PROGRESS_STYLES_def
      ascii_def)

theorem createProgressBar_spec_witness:
  "map_of PROGRESS_STYLES (style_key env_hash) =
     Some \<lparr>filled = ascii ''#'', empty = ascii ''-'', blocks = 25\<rparr>
   \<and> (0::rat) \<le> 50 \<and> (50::rat) \<le> 100
   \<and> createProgressBar env_hash (Num 0) = Inr (replicate 25 0x2D)
   \<and> createProgressBar env_hash (Num 100) = Inr (replicate 25 0x23)
   \<and> createProgressBar env_hash (Num 50) = Inr (replicate 13 0x23 @ replicate 12 0x2D)"
proof -
  have a: "(0::rat) \<le> 50" and b: "(50::rat) \<le> 100" by simp_all
  have r: "\<lfloor>of_nat 25 / 2 + 1 / 2 :: rat\<rfloor> = 13"
    by (rule floor_unique) simp_all
  have c: "concat (replicate n [x]) = replicate n x" for n and x :: "16 word"
    by (induction n) simp_all
  note spec = createProgressBar_spec [OF style_hash a b]
  have none: "createProgressBar env_hash (Num 0) = Inr (replicate 25 0x2D)"
    using spec [THEN conjunct2, THEN conjunct2, THEN conjunct2, THEN conjunct1]
    by (simp add: c ascii_def)
  have full: "createProgressBar env_hash (Num 100) = Inr (replicate 25 0x23)"
    using spec [THEN conjunct2, THEN conjunct2, THEN conjunct2, THEN conjunct2, THEN conjunct1]
    by (simp add: c ascii_def)
  have half: "createProgressBar env_hash (Num 50) = Inr (replicate 13 0x23 @ replicate 12 0x2D)"
    using spec [THEN conjunct2, THEN conjunct2, THEN conjunct2, THEN conjunct2, THEN conjunct2]
    by (simp add: bar_of_def r c ascii_def)
  from style_hash a b none full half show ?thesis by blast
qed

text \<open>
  The rounding of the quotient and of the product shows in the result. For 58 percent
  of the 25 blocks of the \<^verbatim>\<open>hash\<close> style the exact product is 14.5, which would
  round to 15; the doubles give 14.499999999999998 and the bar has 14 filled glyphs.
\<close>

lemma expo_unique:
  assumes "0 < x" and "2 powi k \<le> x" and "x < 2 powi (k + 1)"
  shows "expo x = k"
proof -
  have upper: "expo x < k + 1"
    using assms(1,3) by (rule expo_less)
  have "k < expo x + 1"
  proof (rule ccontr)
    assume "\<not> k < expo x + 1"
    then have "(2::rat) powi (expo x + 1) \<le> 2 powi k"
      by (intro power_int_increasing) simp_all
    with expo_bounds [OF assms(1)] assms(2) show False by linarith
  qed
  with upper show ?thesis by linarith
qed

lemma round_half_even_down:
  assumes "of_int m \<le> r" and "r < of_int m + 1 / 2"
  shows "round_half_even r = m"
proof -
  have "\<lfloor>r\<rfloor> = m"
    using assms by (intro floor_unique) simp_all
  then show ?thesis
    using assms by (simp add: round_half_even_def Let_def)
qed

lemma fl_58_percent: "fl (58 / 100) = 5224175567749775 / 2 ^ 53"
proof -
  have pos: "(0::rat) < 58 / 100" by simp
  have e: "expo (58 / 100) = - 1"
    using pos by (rule expo_unique) (simp_all add: power_int_minus)
  have g: "(2::rat) powi (- 1 - 52) = 1 / 2 ^ 53"
    by (simp add: power_int_minus_divide)
  have "round_half_even (58 / 100 / (1 / 2 ^ 53)) = 5224175567749775"
    by (rule round_half_even_down) simp_all
  then show ?thesis
    unfolding fl_pos [OF pos] e g by simp
qed

lemma fl_58_percent_of_25:
  "fl (5224175567749775 / 2 ^ 53 * 25) = 8162774324609023 / 2 ^ 49"
proof -
  have pos: "(0::rat) < 5224175567749775 / 2 ^ 53 * 25" by simp
  have e: "expo (5224175567749775 / 2 ^ 53 * 25) = 3"
    using pos by (rule expo_unique) simp_all
  have g: "(2::rat) powi (3 - 52) = 1 / 2 ^ 49"
    by (simp add: power_int_minus_divide)
  have "round_half_even (5224175567749775 / 2 ^ 53 * 25 / (1 / 2 ^ 49)) = 8162774324609023"
    by (rule round_half_even_down) simp_all
  then show ?thesis
    unfolding fl_pos [OF pos] e g by simp
qed

lemma rounded_blocks_58_of_25:
  "rounded_blocks 58 25 = 14" "\<lfloor>(58::rat) / 100 * 25 + 1 / 2\<rfloor> = 15"
proof -
  show "rounded_blocks 58 25 = 14"
    unfolding rounded_blocks_def of_nat_numeral fl_58_percent fl_58_percent_of_25
    by (rule floor_unique) simp_all
  show "\<lfloor>(58::rat) / 100 * 25 + 1 / 2\<rfloor> = 15"
    by (rule floor_unique) simp_all
qed

section \<open>Percentages\<close>

lemma foldl_seconds:
  assumes "a + sum_list (map total_seconds ls) < 2 ^ 53"
  shows "foldl (\<lambda>sum l. num_add sum (Num (of_nat (total_seconds l)))) (Num (of_nat a)) ls =
         Num (of_nat (a + sum_list (map total_seconds ls)))"
  using assms
proof (induction ls arbitrary: a)
  case Nil
  then show ?case by simp
next
  case (Cons l ls)
  have "a + total_seconds l \<le> a + sum_list (map total_seconds (l # ls))" by simp
  from this Cons.prems have "a + total_seconds l < 2 ^ 53" by (rule le_less_trans)
  then have "fl (of_nat (a + total_seconds l)) = of_nat (a + total_seconds l)"
    by (rule fl_of_nat)
  then have step: "num_add (Num (of_nat a)) (Num (of_nat (total_seconds l))) =
      Num (of_nat (a + total_seconds l))"
    by (simp only: num_add.simps of_nat_add [symmetric])
  have "a + total_seconds l + sum_list (map total_seconds ls) < 2 ^ 53"
    using Cons.prems by (simp add: add.assoc)
  from Cons.IH [OF this] show ?case
    by (simp only: foldl_Cons step list.map sum_list.Cons add.assoc)
qed

lemma total_of_exact:
  assumes "seconds_total stats < 2 ^ 53"
  shows "total_of stats = Num (of_nat (seconds_total stats))"
  using foldl_seconds [of 0 "languages stats"] assms
  by (simp add: total_of_def seconds_total_def)

lemma percentage_of_value:
  assumes "0 < seconds_total stats" and "seconds_total stats < 2 ^ 53"
  shows "percentage_of stats lang =
     Num (fl (fl (of_nat (total_seconds lang) / of_nat (seconds_total stats)) * 100))"
  using assms(1) by (simp add: percentage_of_def total_of_exact [OF assms(2)])

lemma fl_pos_pos:
  assumes "0 < r"
  shows "0 < fl r"
proof -
  have "r / 2 ^ 53 < r"
    using assms by (simp add: divide_less_eq)
  with fl_relative_error [OF assms] show ?thesis by linarith
qed

lemma scaled_percentage_error:
  assumes "0 \<le> r"
  shows "\<bar>fl (fl r * 100) - 100 * r\<bar> \<le> 100 * r / 2 ^ 51"
proof (cases "r = 0")
  case True
  then show ?thesis by simp
next
  case False
  with assms have r: "0 < r" by simp
  define t where "t = fl r"
  have t: "0 < t" unfolding t_def using r by (rule fl_pos_pos)
  have e1: "\<bar>t - r\<bar> \<le> r / 2 ^ 53"
    unfolding t_def using r by (rule fl_relative_error)
  have "0 < t * 100" using t by simp
  then have e2: "\<bar>fl (t * 100) - t * 100\<bar> \<le> t * 100 / 2 ^ 53"
    by (rule fl_relative_error)
  have t_le: "t \<le> 2 * r"
  proof -
    have "r / 2 ^ 53 \<le> r" using r by (simp add: divide_le_eq)
    with e1 show ?thesis by linarith
  qed
  have "t * 100 / 2 ^ 53 \<le> (2 * r) * 100 / 2 ^ 53"
    using t_le by (intro divide_right_mono mult_right_mono) simp_all
  with e2 have e3: "\<bar>fl (t * 100) - t * 100\<bar> \<le> 200 * r / 2 ^ 53"
    by simp
  have "fl (t * 100) - 100 * r = (fl (t * 100) - t * 100) + 100 * (t - r)"
    by simp
  then have "\<bar>fl (t * 100) - 100 * r\<bar> \<le> \<bar>fl (t * 100) - t * 100\<bar> + \<bar>100 * (t - r)\<bar>"
    by (simp only: abs_triangle_ineq)
  also have "\<bar>100 * (t - r)\<bar> = 100 * \<bar>t - r\<bar>"
    by (simp only: abs_mult abs_numeral)
  finally have "\<bar>fl (t * 100) - 100 * r\<bar> \<le> \<bar>fl (t * 100) - t * 100\<bar> + 100 * \<bar>t - r\<bar>" .
  also have "\<dots> \<le> 200 * r / 2 ^ 53 + 100 * (r / 2 ^ 53)"
    using e1 e3 by (intro add_mono mult_left_mono) simp_all
  also have "\<dots> = 300 * r / 2 ^ 53" by simp
  also have "\<dots> \<le> 400 * r / 2 ^ 53"
    using r by (intro divide_right_mono mult_right_mono) simp_all
  also have "\<dots> = 100 * r / 2 ^ 51" by simp
  finally show ?thesis by (simp add: t_def)
qed

lemma percentage_range:
  assumes "0 < S" and "S < 2 ^ 53" and "x \<le> S"
  shows "0 \<le> fl (fl (of_nat x / of_nat S) * 100) \<and> fl (fl (of_nat x / of_nat S) * 100) \<le> 100"
proof -
  define r :: rat where "r = of_nat x / of_nat S"
  have S: "(0::rat) < of_nat S" using assms(1) by simp
  have "(of_nat x :: rat) \<le> of_nat S" using assms(3) by (simp only: of_nat_le_iff)
  then have r: "0 \<le> r" "r \<le> 1"
    using S by (simp_all add: r_def)
  have t: "0 \<le> fl r \<and> fl r \<le> 1"
  proof (cases "r = 0")
    case True
    then show ?thesis by simp
  next
    case False
    with r have pos: "0 < r" by simp
    have "r < 2 ^ 53" using r(2) by simp
    from pos this have "fl r \<le> of_int 1"
      using r(2) by (intro fl_le_int) simp_all
    moreover have "0 \<le> fl r" using r(1) by (rule fl_nonneg)
    ultimately show ?thesis by simp
  qed
  have "0 \<le> fl (fl r * of_nat 100) \<and> fl (fl r * of_nat 100) \<le> of_nat 100"
    using t by (intro scaled_fraction) simp_all
  then show ?thesis by (simp add: r_def)
qed

section \<open>Lines\<close>

lemma map_result_all:
  assumes "\<And>x. x \<in> set xs \<Longrightarrow> f x = Inr (g x)"
  shows "map_result f xs = Inr (map g xs)"
  using assms by (induction xs) simp_all

lemma shown_seconds_le_total:
  assumes "lang \<in> set (take 5 (languages stats))"
  shows "total_seconds lang \<le> seconds_total stats"
proof -
  have "lang \<in> set (languages stats)"
    using assms by (rule in_set_takeD)
  then have "total_seconds lang \<in> set (map total_seconds (languages stats))"
    by simp
  then show ?thesis
    unfolding seconds_total_def by (rule member_le_sum_list) simp_all
qed

lemma createProgressBar_in_range:
  assumes "map_of PROGRESS_STYLES (style_key env) = Some st" and "0 \<le> p" and "p \<le> 100"
  shows "createProgressBar env (Num p) = Inr (bar_of st (nat (rounded_blocks p (blocks st))))"
    and "0 \<le> rounded_blocks p (blocks st)" and "rounded_blocks p (blocks st) \<le> int (blocks st)"
proof -
  have "blocks st \<le> 25"
    using known_styles [OF assms(1)] by auto
  then have b: "blocks st < 2 ^ 53" by simp
  from rounded_blocks_range [OF assms(2,3) b]
  show k: "0 \<le> rounded_blocks p (blocks st)" "rounded_blocks p (blocks st) \<le> int (blocks st)"
    by simp_all
  from createProgressBar_finite [OF assms(1) k b]
  show "createProgressBar env (Num p) = Inr (bar_of st (nat (rounded_blocks p (blocks st))))" .
qed

text \<open>
  A line of a snapshot with a positive total, in one of the three styles: its parts,
  with the percentage \<open>pct\<close> that \<open>percentage_of\<close> computes.
\<close>

lemma format_line_value:
  assumes st: "map_of PROGRESS_STYLES (style_key env) = Some st"
      and S: "0 < seconds_total stats" "seconds_total stats < 2 ^ 53"
      and x: "total_seconds lang \<le> seconds_total stats"
      and pct: "pct = fl (fl (of_nat (total_seconds lang) / of_nat (seconds_total stats)) * 100)"
  shows "format_line env stats lang =
     Inr (padEnd 10 (name lang) @ ascii '' '' @
          padEnd 14 (formatDuration (total_seconds lang)) @ ascii '' '' @
          bar_of st (nat (rounded_blocks pct (blocks st))) @ ascii ''  '' @
          toFixed1_abs pct @ ascii ''%'')"
proof -
  have p: "percentage_of stats lang = Num pct"
    unfolding pct using S by (rule percentage_of_value)
  have range: "0 \<le> pct" "pct \<le> 100"
    unfolding pct using percentage_range [OF S x] by simp_all
  have bar: "createProgressBar env (Num pct) = Inr (bar_of st (nat (rounded_blocks pct (blocks st))))"
    using st range by (rule createProgressBar_in_range(1))
  have "\<not> pct < 0" using range(1) by simp
  then show ?thesis
    by (simp add: format_line_def p bar)
qed

lemma formatStats_value:
  assumes st: "map_of PROGRESS_STYLES (style_key env) = Some st"
      and S: "0 < seconds_total stats" "seconds_total stats < 2 ^ 53"
  shows "formatStats env stats =
     Inr (join [0x0A]
       (map (\<lambda>lang.
          padEnd 10 (name lang) @ ascii '' '' @
          padEnd 14 (formatDuration (total_seconds lang)) @ ascii '' '' @
          bar_of st (nat (rounded_blocks
            (fl (fl (of_nat (total_seconds lang) / of_nat (seconds_total stats)) * 100))
            (blocks st))) @
          ascii ''  '' @
          toFixed1_abs (fl (fl (of_nat (total_seconds lang) / of_nat (seconds_total stats)) * 100)) @
          ascii ''%'')
        (take 5 (languages stats))))"
proof -
  have "map_result (format_line env stats) (take 5 (languages stats)) =
     Inr (map (\<lambda>lang.
          padEnd 10 (name lang) @ ascii '' '' @
          padEnd 14 (formatDuration (total_seconds lang)) @ ascii '' '' @
          bar_of st (nat (rounded_blocks
            (fl (fl (of_nat (total_seconds lang) / of_nat (seconds_total stats)) * 100))
            (blocks st))) @
          ascii ''  '' @
          toFixed1_abs (fl (fl (of_nat (total_seconds lang) / of_nat (seconds_total stats)) * 100)) @
          ascii ''%'')
        (take 5 (languages stats)))"
  proof (rule map_result_all)
    fix lang
    assume "lang \<in> set (take 5 (languages stats))"
    then have "total_seconds lang \<le> seconds_total stats"
      by (rule shown_seconds_le_total)
    from format_line_value [OF st S this refl]
    show "format_line env stats lang =
       Inr (padEnd 10 (name lang) @ ascii '' '' @
          padEnd 14 (formatDuration (total_seconds lang)) @ ascii '' '' @
          bar_of st (nat (rounded_blocks
            (fl (fl (of_nat (total_seconds lang) / of_nat (seconds_total stats)) * 100))
            (blocks st))) @
          ascii ''  '' @
          toFixed1_abs (fl (fl (of_nat (total_seconds lang) / of_nat (seconds_total stats)) * 100)) @
          ascii ''%'')" .
  qed
  then show ?thesis
    by (simp only: formatStats_def sum.case)
qed

lemma toFixed1_abs_digits:
  assumes "0 \<le> q"
  shows "\<exists>n d. d < 10 \<and> int (10 * n + d) = \<lfloor>q * 10 + 1 / 2\<rfloor>
            \<and> toFixed1_abs q = show_nat n @ ascii ''.'' @ show_nat d"
proof -
  define m where "m = nat \<lfloor>q * 10 + 1 / 2\<rfloor>"
  have "0 \<le> \<lfloor>q * 10 + 1 / 2\<rfloor>"
    using assms by (simp add: le_floor_iff)
  then have "int (10 * (m div 10) + m mod 10) = \<lfloor>q * 10 + 1 / 2\<rfloor>"
    by (simp add: m_def)
  moreover have "m mod 10 < 10" by simp
  moreover have "toFixed1_abs q = show_nat (m div 10) @ ascii ''.'' @ show_nat (m mod 10)"
    by (simp add: toFixed1_abs_def m_def Let_def)
  ultimately show ?thesis by blast
qed

lemma nth_take_5:
  assumes "i < min 5 (length xs)"
  shows "take 5 xs ! i = xs ! i" and "xs ! i \<in> set (take 5 xs)"
proof -
  show "take 5 xs ! i = xs ! i" using assms by simp
  have "i < length (take 5 xs)" using assms by simp
  then have "take 5 xs ! i \<in> set (take 5 xs)" by (rule nth_mem)
  then show "xs ! i \<in> set (take 5 xs)" using assms by simp
qed

text \<open>
  Claim C6, amended. For a snapshot whose seconds add up to a positive total below
  \<open>2^53\<close>, rendered in one of the three styles, \<open>formatStats\<close> gives one line for each
  of the first five languages (fewer when the snapshot has fewer), in the order of the
  snapshot, joined by single newlines. A line is the name followed by spaces up to ten
  code units (a longer name stays whole, nothing is cut), a space, the duration followed
  by spaces up to fourteen, a space, the bar of exactly \<open>blocks\<close> glyphs, two spaces,
  the percentage with one digit after the point, and a percent sign.
\<close>

theorem formatStats_lines:
  assumes "map_of PROGRESS_STYLES (style_key env) = Some st"
      and "0 < seconds_total stats" and "seconds_total stats < 2 ^ 53"
  shows "\<exists>lines. formatStats env stats = Inr (join [0x0A] lines)
          \<and> length lines = min 5 (length (languages stats))
          \<and> length (filled st) = 1 \<and> length (empty st) = 1
          \<and> (\<forall>i < length lines. \<exists>pct k n d.
                percentage_of stats (languages stats ! i) = Num pct
                \<and> int k = rounded_blocks pct (blocks st) \<and> k \<le> blocks st
                \<and> int (10 * n + d) = \<lfloor>pct * 10 + 1 / 2\<rfloor> \<and> d < 10
                \<and> lines ! i =
                    (let lang = languages stats ! i;
                         duration = formatDuration (total_seconds lang)
                     in name lang @ replicate (10 - length (name lang)) 0x20 @ ascii '' '' @
                        duration @ replicate (14 - length duration) 0x20 @ ascii '' '' @
                        concat (replicate k (filled st)) @
                        concat (replicate (blocks st - k) (empty st)) @ ascii ''  '' @
                        show_nat n @ ascii ''.'' @ show_nat d @ ascii ''%''))"
proof -
  define pct_of where
    "pct_of lang = fl (fl (of_nat (total_seconds lang) / of_nat (seconds_total stats)) * 100)"
    for lang :: Language
  define line where
    "line lang =
       padEnd 10 (name lang) @ ascii '' '' @
       padEnd 14 (formatDuration (total_seconds lang)) @ ascii '' '' @
       bar_of st (nat (rounded_blocks (pct_of lang) (blocks st))) @ ascii ''  '' @
       toFixed1_abs (pct_of lang) @ ascii ''%''" for lang :: Language
  define lines where "lines = map line (take 5 (languages stats))"
  have rendered: "formatStats env stats = Inr (join [0x0A] lines)"
    unfolding lines_def line_def pct_of_def using assms by (rule formatStats_value)
  have count: "length lines = min 5 (length (languages stats))"
    by (simp add: lines_def)
  have each: "\<exists>pct k n d.
                percentage_of stats (languages stats ! i) = Num pct
                \<and> int k = rounded_blocks pct (blocks st) \<and> k \<le> blocks st
                \<and> int (10 * n + d) = \<lfloor>pct * 10 + 1 / 2\<rfloor> \<and> d < 10
                \<and> lines ! i =
                    (let lang = languages stats ! i;
                         duration = formatDuration (total_seconds lang)
                     in name lang @ replicate (10 - length (name lang)) 0x20 @ ascii '' '' @
                        duration @ replicate (14 - length duration) 0x20 @ ascii '' '' @
                        concat (replicate k (filled st)) @
                        concat (replicate (blocks st - k) (empty st)) @ ascii ''  '' @
                        show_nat n @ ascii ''.'' @ show_nat d @ ascii ''%'')"
    if i: "i < length lines" for i
  proof -
    define lang where "lang = languages stats ! i"
    have i5: "i < min 5 (length (languages stats))"
      using i count by simp
    have nth: "lines ! i = line lang"
      using i5 by (simp add: lines_def lang_def)
    have "lang \<in> set (take 5 (languages stats))"
      unfolding lang_def using i5 by (rule nth_take_5(2))
    then have x: "total_seconds lang \<le> seconds_total stats"
      by (rule shown_seconds_le_total)
    have p: "percentage_of stats lang = Num (pct_of lang)"
      unfolding pct_of_def using assms(2,3) by (rule percentage_of_value)
    have range: "0 \<le> pct_of lang" "pct_of lang \<le> 100"
      unfolding pct_of_def using percentage_range [OF assms(2,3) x] by simp_all
    define k where "k = nat (rounded_blocks (pct_of lang) (blocks st))"
    have k: "int k = rounded_blocks (pct_of lang) (blocks st)" "k \<le> blocks st"
      using createProgressBar_in_range(2,3) [OF assms(1) range] by (simp_all add: k_def)
    obtain n d where d: "d < 10" and nd: "int (10 * n + d) = \<lfloor>pct_of lang * 10 + 1 / 2\<rfloor>"
      and fixed: "toFixed1_abs (pct_of lang) = show_nat n @ ascii ''.'' @ show_nat d"
      using toFixed1_abs_digits [OF range(1)] by blast
    have "lines ! i =
        name lang @ replicate (10 - length (name lang)) 0x20 @ ascii '' '' @
        formatDuration (total_seconds lang) @
        replicate (14 - length (formatDuration (total_seconds lang))) 0x20 @ ascii '' '' @
        concat (replicate k (filled st)) @
        concat (replicate (blocks st - k) (empty st)) @ ascii ''  '' @
        show_nat n @ ascii ''.'' @ show_nat d @ ascii ''%''"
      by (simp add: nth line_def padEnd_def bar_of_def k_def [symmetric] fixed)
    with p k d nd show ?thesis
      unfolding lang_def [symmetric] Let_def by blast
  qed
  have glyphs: "length (filled st) = 1" "length (empty st) = 1"
    using known_styles [OF assms(1)] by simp_all
  from rendered count glyphs each show ?thesis by blast
qed

section \<open>Sample snapshots rendered\<close>

lemma show_nat_small:
  "show_nat 0 = ascii ''0''" "show_nat 5 = ascii ''5''" "show_nat 10 = ascii ''10''"
  "show_nat 12 = ascii ''12''" "show_nat 50 = ascii ''50''" "show_nat 100 = ascii ''100''"
  by (simp_all add: show_nat.simps [of 0] show_nat_1 show_nat.simps [of 5]
      show_nat.simps [of 10] show_nat.simps [of 12] show_nat.simps [of 50]
      show_nat.simps [of 100] ascii_def)

lemma toFixed1_abs_samples:
  "toFixed1_abs 50 = ascii ''50.0''" "toFixed1_abs 100 = ascii ''100.0''"
  "toFixed1_abs (25 / 2) = ascii ''12.5''"
proof -
  have "\<lfloor>of_int 500 + 1 / 2 :: rat\<rfloor> = 500" "\<lfloor>of_int 1000 + 1 / 2 :: rat\<rfloor> = 1000"
    "\<lfloor>of_int 125 + 1 / 2 :: rat\<rfloor> = 125"
    by (rule floor_plus_half)+
  then have f: "\<lfloor>(50::rat) * 10 + 1 / 2\<rfloor> = 500" "\<lfloor>(100::rat) * 10 + 1 / 2\<rfloor> = 1000"
    "\<lfloor>(25::rat) / 2 * 10 + 1 / 2\<rfloor> = 125"
    by simp_all
  show "toFixed1_abs 50 = ascii ''50.0''"
    unfolding toFixed1_abs_def f by (simp add: show_nat_small) (simp add: ascii_def)
  show "toFixed1_abs 100 = ascii ''100.0''"
    unfolding toFixed1_abs_def f by (simp add: show_nat_small) (simp add: ascii_def)
  show "toFixed1_abs (25 / 2) = ascii ''12.5''"
    unfolding toFixed1_abs_def f by (simp add: show_nat_small) (simp add: ascii_def)
qed

lemma formatDuration_3600: "formatDuration 3600 = ascii ''1 hrs''"
proof -
  have "(3600::nat) < 2 ^ 53" by simp
  from formatDuration_cases [OF this] show ?thesis
    by (simp add: show_nat_1) (simp add: ascii_def)
qed

lemma fl_one: "fl 1 = 1"
  using fl_of_nat [of 1] by simp

lemma fl_hundred: "fl 100 = 100"
  using fl_of_nat [of 100] by simp

lemma fl_fifty: "fl 50 = 50"
  using fl_of_nat [of 50] by simp

lemma rounded_blocks_default:
  "rounded_blocks 50 14 = 7" "rounded_blocks 100 14 = 14"
proof -
  have "\<lfloor>of_int 7 + 1 / 2 :: rat\<rfloor> = 7" by (rule floor_plus_half)
  then have "\<lfloor>of_nat 14 / 2 + 1 / 2 :: rat\<rfloor> = 7" by simp
  then show "rounded_blocks 50 14 = 7"
    using rounded_blocks_50 [of 14] by simp
  show "rounded_blocks 100 14 = 14"
    using rounded_blocks_100 [of 14] by simp
qed

lemma concat_replicate_glyph: "concat (replicate n [x]) = replicate n x"
  by (induction n) simp_all

lemma replicate_9: "replicate 9 x = [x, x, x, x, x, x, x, x, x]"
  by (simp add: numeral_eq_Suc)

lemma formatStats_sample:
  "formatStats env_unset sample_stats =
     Inr (ascii ''A          1 hrs          '' @ replicate 7 0x25B0 @ replicate 7 0x25B1 @
          ascii ''  50.0%'' @ [0x0A] @
          ascii ''B          1 hrs          '' @ replicate 7 0x25B0 @ replicate 7 0x25B1 @
          ascii ''  50.0%'')"
proof -
  have total: "seconds_total sample_stats = 7200"
    by (simp add: seconds_total_def sample_stats_def)
  have S: "0 < seconds_total sample_stats" "seconds_total sample_stats < 2 ^ 53"
    by (simp_all add: total)
  have langs: "take 5 (languages sample_stats) =
      [\<lparr>name = ascii ''A'', total_seconds = 3600\<rparr>, \<lparr>name = ascii ''B'', total_seconds = 3600\<rparr>]"
    by (simp add: sample_stats_def)
  show ?thesis
    unfolding formatStats_value [OF style_default S] langs total
    by (simp add: fl_half fl_one fl_fifty fl_hundred rounded_blocks_default formatDuration_3600
        toFixed1_abs_samples bar_of_def concat_replicate_glyph padEnd_def)
      (simp add: ascii_def replicate_9)
qed

lemma formatStats_long_name:
  "formatStats env_unset long_name_stats =
     Inr (ascii ''Jupyter Notebook 1 hrs          '' @ replicate 14 0x25B0 @ ascii ''  100.0%'')"
proof -
  have total: "seconds_total long_name_stats = 3600"
    by (simp add: seconds_total_def long_name_stats_def)
  have S: "0 < seconds_total long_name_stats" "seconds_total long_name_stats < 2 ^ 53"
    by (simp_all add: total)
  have langs: "take 5 (languages long_name_stats) =
      [\<lparr>name = ascii ''Jupyter Notebook'', total_seconds = 3600\<rparr>]"
    by (simp add: long_name_stats_def)
  show ?thesis
    unfolding formatStats_value [OF style_default S] langs total
    by (simp add: fl_half fl_one fl_fifty fl_hundred rounded_blocks_default formatDuration_3600
        toFixed1_abs_samples bar_of_def concat_replicate_glyph padEnd_def)
      (simp add: ascii_def replicate_9)
qed

text \<open>
  Claim C6 as worded has the name truncated to ten code units. \<open>padEnd\<close> only pads:
  the sixteen code units of \<^verbatim>\<open>Jupyter Notebook\<close> all appear in the line.
\<close>

theorem name_column_not_truncated:
  "formatStats env_unset long_name_stats =
     Inr (ascii ''Jupyter Notebook 1 hrs          '' @ replicate 14 0x25B0 @ ascii ''  100.0%'')
   \<and> name_column_claimed (ascii ''Jupyter Notebook'') = ascii ''Jupyter No''
   \<and> formatStats env_unset long_name_stats \<noteq>
       Inr (name_column_claimed (ascii ''Jupyter Notebook'') @ ascii '' 1 hrs          '' @
            replicate 14 0x25B0 @ ascii ''  100.0%'')"
proof -
  have claimed: "name_column_claimed (ascii ''Jupyter Notebook'') = ascii ''Jupyter No''"
    by (simp add: name_column_claimed_def padEnd_def ascii_def)
  have "ascii ''Jupyter Notebook 1 hrs          '' @ replicate 14 0x25B0 @ ascii ''  100.0%'' \<noteq>
      ascii ''Jupyter No'' @ ascii '' 1 hrs          '' @ replicate (14::nat) (0x25B0 :: 16 word) @
      ascii ''  100.0%''"
    by (simp add: ascii_def)
  with formatStats_long_name claimed show ?thesis by simp
qed

theorem formatStats_lines_witness:
  "map_of PROGRESS_STYLES (style_key env_unset) =
     Some \<lparr>filled = [0x25B0], empty = [0x25B1], blocks = 14\<rparr>
   \<and> 0 < seconds_total sample_stats \<and> seconds_total sample_stats < 2 ^ 53
   \<and> (\<exists>lines. formatStats env_unset sample_stats = Inr (join [0x0A] lines) \<and> length lines = 2)
   \<and> formatStats env_unset sample_stats =
       Inr (ascii ''A          1 hrs          '' @ replicate 7 0x25B0 @ replicate 7 0x25B1 @
            ascii ''  50.0%'' @ [0x0A] @
            ascii ''B          1 hrs          '' @ replicate 7 0x25B0 @ replicate 7 0x25B1 @
            ascii ''  50.0%'')"
proof -
  have S: "0 < seconds_total sample_stats" "seconds_total sample_stats < 2 ^ 53"
    by (simp_all add: seconds_total_def sample_stats_def)
  have two: "min 5 (length (languages sample_stats)) = 2"
    by (simp add: sample_stats_def)
  from formatStats_lines [OF style_default S]
  obtain lines where "formatStats env_unset sample_stats = Inr (join [0x0A] lines)"
    and "length lines = min 5 (length (languages sample_stats))"
    by blast
  then have "\<exists>lines. formatStats env_unset sample_stats = Inr (join [0x0A] lines) \<and> length lines = 2"
    unfolding two by blast
  with style_default S formatStats_sample show ?thesis by blast
qed

text \<open>
  A snapshot whose languages all have zero seconds is outside the statements on lines: its
  percentage is \<^verbatim>\<open>0 / 0\<close>, the bar is empty and the text reads \<^verbatim>\<open>NaN%\<close>.
\<close>

lemma formatStats_zero_total:
  "formatStats env_unset \<lparr>languages = [\<lparr>name = ascii ''A'', total_seconds = 0\<rparr>]\<rparr> =
     Inr (ascii ''A          0 mins           NaN%'')"
proof -
  have zero: "percentage_of \<lparr>languages = [\<lparr>name = ascii ''A'', total_seconds = 0\<rparr>]\<rparr>
      \<lparr>name = ascii ''A'', total_seconds = 0\<rparr> = NaN"
    by (simp add: percentage_of_def total_of_def)
  have bar: "createProgressBar env_unset NaN = Inr []"
    by (simp add: createProgressBar_def style_default)
  have "(0::nat) < 2 ^ 53" by simp
  from formatDuration_cases [OF this] have duration: "formatDuration 0 = ascii ''0 mins''"
    by simp
  show ?thesis
    by (simp add: formatStats_def format_line_def zero bar duration padEnd_def)
      (simp add: ascii_def replicate_9 numeral_eq_Suc)
qed

section \<open>The denominator of the percentages\<close>

lemma rounded_blocks_eighth: "rounded_blocks (25 / 2) 14 = 2"
proof -
  have "fl (of_int 1 / 2 ^ 3) = of_int 1 / 2 ^ 3"
    by (rule fl_dyadic) simp_all
  then have eighth: "fl (1 / 8) = 1 / 8" by simp
  have "fl (of_int 7 / 2 ^ 2) = of_int 7 / 2 ^ 2"
    by (rule fl_dyadic) simp_all
  then have scaled: "fl (7 / 4) = 7 / 4" by simp
  have "\<lfloor>of_int 2 + 1 / 4 :: rat\<rfloor> = 2"
    by (rule floor_unique) simp_all
  then have "\<lfloor>7 / 4 + 1 / 2 :: rat\<rfloor> = 2" by simp
  then show ?thesis
    by (simp add: rounded_blocks_def eighth scaled)
qed

lemma formatStats_eight_equal:
  "formatStats env_unset eight_equal =
     Inr (join [0x0A]
       (map (\<lambda>c. c # ascii ''          1 hrs          '' @ replicate 2 0x25B0 @
                  replicate 12 0x25B1 @ ascii ''  12.5%'')
          (ascii ''ABCDE'')))"
proof -
  have total: "seconds_total eight_equal = 28800"
    by (simp add: seconds_total_def eight_equal_def)
  have S: "0 < seconds_total eight_equal" "seconds_total eight_equal < 2 ^ 53"
    by (simp_all add: total)
  have langs: "take 5 (languages eight_equal) =
      map (\<lambda>c. \<lparr>name = [c], total_seconds = 3600\<rparr>) (ascii ''ABCDE'')"
    by (simp add: eight_equal_def ascii_def)
  have "fl (of_int 1 / 2 ^ 3) = of_int 1 / 2 ^ 3"
    by (rule fl_dyadic) simp_all
  then have eighth: "fl (1 / 8) = 1 / 8" by simp
  have "fl (of_int 25 / 2 ^ 1) = of_int 25 / 2 ^ 1"
    by (rule fl_dyadic) simp_all
  then have pct: "fl (25 / 2) = 25 / 2" by simp
  show ?thesis
    unfolding formatStats_value [OF style_default S] langs total
    by (simp add: eighth pct rounded_blocks_eighth formatDuration_3600
        toFixed1_abs_samples bar_of_def concat_replicate_glyph padEnd_def comp_def)
      (simp add: ascii_def replicate_9 numeral_eq_Suc)
qed

text \<open>
  Claim C2. For a snapshot whose seconds, added up over all its languages, give a positive
  total below \<open>2^53\<close>, rendered in one of the three styles, \<open>formatStats\<close> gives one line
  for each of the first five languages (fewer when the snapshot has fewer), and the
  percentage that sets the bar and ends the line of a language is its seconds divided by
  that total (the sum over the whole list, not over the five displayed) and multiplied
  by 100, each operation rounded to a double: it differs from the exact value
  \<open>100 * seconds / total\<close> by at most that value over \<open>2^51\<close>. The displayed percentages
  need not add up to 100: of eight languages with 3600 seconds each, the five lines of
  the text read 12.5% each.
\<close>

theorem percentage_over_full_list:
  assumes "map_of PROGRESS_STYLES (style_key env) = Some st"
      and "0 < seconds_total stats" and "seconds_total stats < 2 ^ 53"
  shows "\<exists>lines. formatStats env stats = Inr (join [0x0A] lines)
          \<and> length lines = min 5 (length (languages stats))
          \<and> (\<forall>i < length lines. \<exists>pct.
                percentage_of stats (languages stats ! i) = Num pct
                \<and> \<bar>pct - 100 * of_nat (total_seconds (languages stats ! i)) /
                           of_nat (seconds_total stats)\<bar>
                    \<le> 100 * of_nat (total_seconds (languages stats ! i)) /
                        of_nat (seconds_total stats) / 2 ^ 51
                \<and> lines ! i =
                    (let lang = languages stats ! i
                     in padEnd 10 (name lang) @ ascii '' '' @
                        padEnd 14 (formatDuration (total_seconds lang)) @ ascii '' '' @
                        bar_of st (nat (rounded_blocks pct (blocks st))) @ ascii ''  '' @
                        toFixed1 (Num pct) @ ascii ''%''))
          \<and> formatStats env_unset eight_equal =
              Inr (join [0x0A]
                (map (\<lambda>c. c # ascii ''          1 hrs          '' @ replicate 2 0x25B0 @
                           replicate 12 0x25B1 @ ascii ''  12.5%'')
                   (ascii ''ABCDE'')))"
proof -
  define pct_of where
    "pct_of lang = fl (fl (of_nat (total_seconds lang) / of_nat (seconds_total stats)) * 100)"
    for lang :: Language
  define line where
    "line lang =
       padEnd 10 (name lang) @ ascii '' '' @
       padEnd 14 (formatDuration (total_seconds lang)) @ ascii '' '' @
       bar_of st (nat (rounded_blocks (pct_of lang) (blocks st))) @ ascii ''  '' @
       toFixed1_abs (pct_of lang) @ ascii ''%''" for lang :: Language
  define lines where "lines = map line (take 5 (languages stats))"
  have rendered: "formatStats env stats = Inr (join [0x0A] lines)"
    unfolding lines_def line_def pct_of_def using assms by (rule formatStats_value)
  have count: "length lines = min 5 (length (languages stats))"
    by (simp add: lines_def)
  have each: "\<exists>pct.
                percentage_of stats (languages stats ! i) = Num pct
                \<and> \<bar>pct - 100 * of_nat (total_seconds (languages stats ! i)) /
                           of_nat (seconds_total stats)\<bar>
                    \<le> 100 * of_nat (total_seconds (languages stats ! i)) /
                        of_nat (seconds_total stats) / 2 ^ 51
                \<and> lines ! i =
                    (let lang = languages stats ! i
                     in padEnd 10 (name lang) @ ascii '' '' @
                        padEnd 14 (formatDuration (total_seconds lang)) @ ascii '' '' @
                        bar_of st (nat (rounded_blocks pct (blocks st))) @ ascii ''  '' @
                        toFixed1 (Num pct) @ ascii ''%'')"
    if i: "i < length lines" for i
  proof -
    define lang where "lang = languages stats ! i"
    define r :: rat where "r = of_nat (total_seconds lang) / of_nat (seconds_total stats)"
    have i5: "i < min 5 (length (languages stats))"
      using i count by simp
    have nth: "lines ! i = line lang"
      using i5 by (simp add: lines_def lang_def)
    have "lang \<in> set (take 5 (languages stats))"
      unfolding lang_def using i5 by (rule nth_take_5(2))
    then have x: "total_seconds lang \<le> seconds_total stats"
      by (rule shown_seconds_le_total)
    have p: "percentage_of stats lang = Num (pct_of lang)"
      unfolding pct_of_def using assms(2,3) by (rule percentage_of_value)
    have range: "0 \<le> pct_of lang"
      unfolding pct_of_def using percentage_range [OF assms(2,3) x] by simp
    have "0 \<le> r" by (simp add: r_def)
    then have "\<bar>fl (fl r * 100) - 100 * r\<bar> \<le> 100 * r / 2 ^ 51"
      by (rule scaled_percentage_error)
    then have bound: "\<bar>pct_of lang - 100 * of_nat (total_seconds lang) / of_nat (seconds_total stats)\<bar>
        \<le> 100 * of_nat (total_seconds lang) / of_nat (seconds_total stats) / 2 ^ 51"
      by (simp add: r_def pct_of_def)
    have fixed: "toFixed1 (Num (pct_of lang)) = toFixed1_abs (pct_of lang)"
      using range by simp
    have shown: "lines ! i =
        padEnd 10 (name lang) @ ascii '' '' @
        padEnd 14 (formatDuration (total_seconds lang)) @ ascii '' '' @
        bar_of st (nat (rounded_blocks (pct_of lang) (blocks st))) @ ascii ''  '' @
        toFixed1 (Num (pct_of lang)) @ ascii ''%''"
      unfolding fixed nth line_def by (rule refl)
    from p bound shown show ?thesis
      unfolding lang_def [symmetric] Let_def by blast
  qed
  from rendered count each formatStats_eight_equal show ?thesis by blast
qed

theorem percentage_over_full_list_witness:
  "map_of PROGRESS_STYLES (style_key env_unset) =
     Some \<lparr>filled = [0x25B0], empty = [0x25B1], blocks = 14\<rparr>
   \<and> 0 < seconds_total sample_stats \<and> seconds_total sample_stats < 2 ^ 53
   \<and> (\<exists>lines pct. formatStats env_unset sample_stats = Inr (join [0x0A] lines)
         \<and> length lines = 2
         \<and> percentage_of sample_stats (languages sample_stats ! 1) = Num pct
         \<and> \<bar>pct - 50\<bar> \<le> 50 / 2 ^ 51
         \<and> lines ! 1 =
             padEnd 10 (ascii ''B'') @ ascii '' '' @
             padEnd 14 (formatDuration 3600) @ ascii '' '' @
             bar_of \<lparr>filled = [0x25B0], empty = [0x25B1], blocks = 14\<rparr>
               (nat (rounded_blocks pct 14)) @ ascii ''  '' @
             toFixed1 (Num pct) @ ascii ''%'')
   \<and> formatStats env_unset sample_stats =
       Inr (ascii ''A          1 hrs          '' @ replicate 7 0x25B0 @ replicate 7 0x25B1 @
            ascii ''  50.0%'' @ [0x0A] @
            ascii ''B          1 hrs          '' @ replicate 7 0x25B0 @ replicate 7 0x25B1 @
            ascii ''  50.0%'')"
proof -
  have total: "seconds_total sample_stats = 7200"
    by (simp add: seconds_total_def sample_stats_def)
  have S: "0 < seconds_total sample_stats" "seconds_total sample_stats < 2 ^ 53"
    by (simp_all add: total)
  have two: "min 5 (length (languages sample_stats)) = 2"
    by (simp add: sample_stats_def)
  have second: "languages sample_stats ! 1 = \<lparr>name = ascii ''B'', total_seconds = 3600\<rparr>"
    by (simp add: sample_stats_def)
  have ratio: "100 * of_nat (total_seconds (languages sample_stats ! 1)) /
      of_nat (seconds_total sample_stats) = (50::rat)"
    unfolding second total by simp
  from percentage_over_full_list [OF style_default S]
  obtain lines where rendered: "formatStats env_unset sample_stats = Inr (join [0x0A] lines)"
    and count: "length lines = min 5 (length (languages sample_stats))"
    and each: "\<forall>i < length lines. \<exists>pct.
                percentage_of sample_stats (languages sample_stats ! i) = Num pct
                \<and> \<bar>pct - 100 * of_nat (total_seconds (languages sample_stats ! i)) /
                           of_nat (seconds_total sample_stats)\<bar>
                    \<le> 100 * of_nat (total_seconds (languages sample_stats ! i)) /
                        of_nat (seconds_total sample_stats) / 2 ^ 51
                \<and> lines ! i =
                    (let lang = languages sample_stats ! i
                     in padEnd 10 (name lang) @ ascii '' '' @
                        padEnd 14 (formatDuration (total_seconds lang)) @ ascii '' '' @
                        bar_of \<lparr>filled = [0x25B0], empty = [0x25B1], blocks = 14\<rparr>
                          (nat (rounded_blocks pct
                             (blocks \<lparr>filled = [0x25B0], empty = [0x25B1], blocks = 14\<rparr>))) @
                        ascii ''  '' @ toFixed1 (Num pct) @ ascii ''%'')"
    by blast
  have len: "length lines = 2"
    using count unfolding two .
  then have "1 < length lines" by simp
  with each obtain pct where
    p: "percentage_of sample_stats (languages sample_stats ! 1) = Num pct"
    and b: "\<bar>pct - 100 * of_nat (total_seconds (languages sample_stats ! 1)) /
                           of_nat (seconds_total sample_stats)\<bar>
                    \<le> 100 * of_nat (total_seconds (languages sample_stats ! 1)) /
                        of_nat (seconds_total sample_stats) / 2 ^ 51"
    and l: "lines ! 1 =
                    (let lang = languages sample_stats ! 1
                     in padEnd 10 (name lang) @ ascii '' '' @
                        padEnd 14 (formatDuration (total_seconds lang)) @ ascii '' '' @
                        bar_of \<lparr>filled = [0x25B0], empty = [0x25B1], blocks = 14\<rparr>
                          (nat (rounded_blocks pct
                             (blocks \<lparr>filled = [0x25B0], empty = [0x25B1], blocks = 14\<rparr>))) @
                        ascii ''  '' @ toFixed1 (Num pct) @ ascii ''%'')"
    by blast
  have near: "\<bar>pct - 50\<bar> \<le> 50 / 2 ^ 51"
    using b unfolding ratio .
  have line: "lines ! 1 =
             padEnd 10 (ascii ''B'') @ ascii '' '' @
             padEnd 14 (formatDuration 3600) @ ascii '' '' @
             bar_of \<lparr>filled = [0x25B0], empty = [0x25B1], blocks = 14\<rparr>
               (nat (rounded_blocks pct 14)) @ ascii ''  '' @
             toFixed1 (Num pct) @ ascii ''%''"
    using l unfolding second Let_def by simp
  from rendered len p near line
  have "\<exists>lines pct. formatStats env_unset sample_stats = Inr (join [0x0A] lines)
         \<and> length lines = 2
         \<and> percentage_of sample_stats (languages sample_stats ! 1) = Num pct
         \<and> \<bar>pct - 50\<bar> \<le> 50 / 2 ^ 51
         \<and> lines ! 1 =
             padEnd 10 (ascii ''B'') @ ascii '' '' @
             padEnd 14 (formatDuration 3600) @ ascii '' '' @
             bar_of \<lparr>filled = [0x25B0], empty = [0x25B1], blocks = 14\<rparr>
               (nat (rounded_blocks pct 14)) @ ascii ''  '' @
             toFixed1 (Num pct) @ ascii ''%''"
    by blast
  with style_default S formatStats_sample show ?thesis by blast
qed

end
